theory Spec2Isabelle
  imports Main "HOL-Library.AList" "HOL-Library.Sublist"
begin

section \<open>JavaScript values\<close>

text \<open>
  The widget handles three kinds of data: the payload of a cross-window message
  (\<open>event.data\<close>), the user record it extracts from that payload, and the text it keeps
  in \<open>localStorage\<close>. Payloads and user records are JavaScript values. The values
  modelled here are \<open>undefined\<close>, \<open>null\<close>, booleans, strings, BigInts, arrays and plain
  objects; an object is its list of own properties in enumeration order. Numbers (IEEE
  doubles) are not part of the embedding; no recognised field of a user record is numeric.

  A payload is the structured clone that \<open>postMessage\<close> makes of the sender's value. A
  clone keeps BigInts, and it keeps reference cycles: \<open>JCyclicRef\<close>, inside an array or an
  object, is a reference back to an array or object that encloses it.

  A \<open>string\<close> stands for a JavaScript string whose code units are all below 256.
\<close>

datatype jsval =
    JUndefined
  | JNull
  | JBool bool
  | JStr string
  | JBigInt int
  | JArr "jsval list"
  | JObj "(string \<times> jsval) list"
  | JCyclicRef

text \<open>
  \<open>SyntaxError\<close> and \<open>TypeError\<close> are the exceptions of JavaScript. \<open>Unsupported\<close> is
  not one of them: it marks an input on which this model of the platform says nothing
  (a JSON text with a number in it, for one).
\<close>

datatype error = SyntaxError | TypeError | Unsupported

datatype 'a outcome = Return 'a | Throw error

text \<open>\<open>ToBoolean\<close>, as used by \<open>&&\<close>, \<open>||\<close>, \<open>?:\<close> and \<open>if\<close>.\<close>

fun js_truthy :: "jsval \<Rightarrow> bool" where
  "js_truthy JUndefined = False"
| "js_truthy JNull = False"
| "js_truthy (JBool b) = b"
| "js_truthy (JStr s) = (s \<noteq> [])"
| "js_truthy (JBigInt n) = (n \<noteq> 0)"
| "js_truthy (JArr xs) = True"
| "js_truthy (JObj kvs) = True"
| "js_truthy JCyclicRef = True"

text \<open>
  Reading a named property \<open>v.p\<close>. On \<open>null\<close> and \<open>undefined\<close> the read throws a
  TypeError. The widget reads only the names \<open>type\<close>, \<open>user\<close> and \<open>service\<close>, which
  no boolean, string, BigInt or array has, so those reads give \<open>undefined\<close>. It reads
  them from \<open>event.data\<close>, which nothing encloses; a read through a back reference would
  need the value the reference points to, and is \<open>Unsupported\<close>.
\<close>

fun js_get :: "jsval \<Rightarrow> string \<Rightarrow> jsval outcome" where
  "js_get JUndefined p = Throw TypeError"
| "js_get JNull p = Throw TypeError"
| "js_get (JObj kvs) p = Return (case map_of kvs p of None \<Rightarrow> JUndefined | Some v \<Rightarrow> v)"
| "js_get JCyclicRef p = Throw Unsupported"
| "js_get v p = Return JUndefined"

section \<open>The platform's JSON\<close>

subsection \<open>\<open>JSON.stringify\<close>\<close>

definition hex_lc :: "nat \<Rightarrow> char" where
  "hex_lc n = ''0123456789abcdef'' ! n"

definition UnicodeEscape :: "char \<Rightarrow> string" where
  "UnicodeEscape c =
     [CHR 0x5C, CHR ''u'', CHR ''0'', CHR ''0'',
      hex_lc ((of_char c :: nat) div 16), hex_lc ((of_char c :: nat) mod 16)]"

definition quote_char :: "char \<Rightarrow> string" where
  "quote_char c =
     (if c = CHR 0x08 then [CHR 0x5C, CHR ''b'']
      else if c = CHR 0x09 then [CHR 0x5C, CHR ''t'']
      else if c = CHR 0x0A then [CHR 0x5C, CHR ''n'']
      else if c = CHR 0x0C then [CHR 0x5C, CHR ''f'']
      else if c = CHR 0x0D then [CHR 0x5C, CHR ''r'']
      else if c = CHR 0x22 then [CHR 0x5C, CHR 0x22]
      else if c = CHR 0x5C then [CHR 0x5C, CHR 0x5C]
      else if (of_char c :: nat) < 0x20 then UnicodeEscape c
      else [c])"

definition QuoteJSONString :: "string \<Rightarrow> string" where
  "QuoteJSONString s = CHR 0x22 # concat (map quote_char s) @ [CHR 0x22]"

fun join_comma :: "string list \<Rightarrow> string" where
  "join_comma [] = []"
| "join_comma [t] = t"
| "join_comma (t # u # ts) = t @ CHR '','' # join_comma (u # ts)"

text \<open>
  \<open>SerializeJSONProperty\<close> gives no text for \<open>undefined\<close>; an array prints such an
  element as \<open>null\<close> and an object leaves such a property out. On a BigInt it throws a
  TypeError, and so it does when it reaches an array or object that it is already
  serializing, which is what a back reference leads to.
\<close>

function SerializeJSONProperty :: "jsval \<Rightarrow> string option outcome"
  and SerializeJSONArray :: "jsval list \<Rightarrow> string list outcome"
  and SerializeJSONObject :: "(string \<times> jsval) list \<Rightarrow> string list outcome"
where
  "SerializeJSONProperty JUndefined = Return None"
| "SerializeJSONProperty JNull = Return (Some ''null'')"
| "SerializeJSONProperty (JBool b) = Return (Some (if b then ''true'' else ''false''))"
| "SerializeJSONProperty (JStr s) = Return (Some (QuoteJSONString s))"
| "SerializeJSONProperty (JBigInt n) = Throw TypeError"
| "SerializeJSONProperty JCyclicRef = Throw TypeError"
| "SerializeJSONProperty (JArr xs) =
     (case SerializeJSONArray xs of
        Throw e \<Rightarrow> Throw e
      | Return ts \<Rightarrow> Return (Some (CHR ''['' # join_comma ts @ [CHR '']''])))"
| "SerializeJSONProperty (JObj kvs) =
     (case SerializeJSONObject kvs of
        Throw e \<Rightarrow> Throw e
      | Return ts \<Rightarrow> Return (Some (CHR ''{'' # join_comma ts @ [CHR ''}''])))"
| "SerializeJSONArray [] = Return []"
| "SerializeJSONArray (x # xs) =
     (case SerializeJSONProperty x of
        Throw e \<Rightarrow> Throw e
      | Return t \<Rightarrow>
          (case SerializeJSONArray xs of
             Throw e \<Rightarrow> Throw e
           | Return ts \<Rightarrow> Return ((case t of None \<Rightarrow> ''null'' | Some u \<Rightarrow> u) # ts)))"
| "SerializeJSONObject [] = Return []"
| "SerializeJSONObject ((k, v) # kvs) =
     (case SerializeJSONProperty v of
        Throw e \<Rightarrow> Throw e
      | Return t \<Rightarrow>
          (case SerializeJSONObject kvs of
             Throw e \<Rightarrow> Throw e
           | Return ts \<Rightarrow>
               Return (case t of None \<Rightarrow> ts | Some u \<Rightarrow> (QuoteJSONString k @ CHR '':'' # u) # ts)))"
  by pat_completeness auto
termination
  by (relation "measure (\<lambda>a. case a of
          Inl v \<Rightarrow> size v
        | Inr (Inl xs) \<Rightarrow> size_list size xs
        | Inr (Inr kvs) \<Rightarrow> size_list (size_prod (\<lambda>_. 0) size) kvs)") auto

definition JSON_stringify :: "jsval \<Rightarrow> string option outcome" where
  "JSON_stringify v = SerializeJSONProperty v"

subsection \<open>\<open>JSON.parse\<close>\<close>

definition is_ws :: "char \<Rightarrow> bool" where
  "is_ws c = (c = CHR 0x20 \<or> c = CHR 0x09 \<or> c = CHR 0x0A \<or> c = CHR 0x0D)"

definition skip_ws :: "string \<Rightarrow> string" where
  "skip_ws s = dropWhile is_ws s"

definition is_digit :: "char \<Rightarrow> bool" where
  "is_digit c = (48 \<le> (of_char c :: nat) \<and> (of_char c :: nat) \<le> 57)"

definition hex_val :: "char \<Rightarrow> nat option" where
  "hex_val c =
     (let n = (of_char c :: nat) in
      if 48 \<le> n \<and> n \<le> 57 then Some (n - 48)
      else if 97 \<le> n \<and> n \<le> 102 then Some (n - 87)
      else if 65 \<le> n \<and> n \<le> 70 then Some (n - 55)
      else None)"

definition unescape :: "char \<Rightarrow> char option" where
  "unescape e =
     (if e = CHR 0x22 then Some (CHR 0x22)
      else if e = CHR 0x5C then Some (CHR 0x5C)
      else if e = CHR ''/'' then Some (CHR ''/'')
      else if e = CHR ''b'' then Some (CHR 0x08)
      else if e = CHR ''f'' then Some (CHR 0x0C)
      else if e = CHR ''n'' then Some (CHR 0x0A)
      else if e = CHR ''r'' then Some (CHR 0x0D)
      else if e = CHR ''t'' then Some (CHR 0x09)
      else None)"

definition cons_char :: "char \<Rightarrow> (string \<times> string) outcome \<Rightarrow> (string \<times> string) outcome" where
  "cons_char c r = (case r of Return (cs, t) \<Rightarrow> Return (c # cs, t) | Throw e \<Rightarrow> Throw e)"

text \<open>
  The characters of a string literal, after its opening quote, up to and including the
  closing quote. The result is the string's value and the text that follows. An escape
  \<open>\uXXXX\<close> of a code unit above 255 leaves the modelled strings: \<open>Unsupported\<close>.
\<close>

fun parse_chars :: "string \<Rightarrow> (string \<times> string) outcome" where
  "parse_chars [] = Throw SyntaxError"
| "parse_chars (c # r) =
     (if c = CHR 0x22 then Return ([], r)
      else if c = CHR 0x5C then
        (case r of
           [] \<Rightarrow> Throw SyntaxError
         | e # r' \<Rightarrow>
             if e = CHR ''u'' then
               (case r' of
                  h1 # h2 # h3 # h4 # r'' \<Rightarrow>
                    (case (hex_val h1, hex_val h2, hex_val h3, hex_val h4) of
                       (Some a, Some b, Some c', Some d) \<Rightarrow>
                         if a = 0 \<and> b = 0 then cons_char (char_of (c' * 16 + d)) (parse_chars r'')
                         else Throw Unsupported
                     | _ \<Rightarrow> Throw SyntaxError)
                | _ \<Rightarrow> Throw SyntaxError)
             else
               (case unescape e of
                  None \<Rightarrow> Throw SyntaxError
                | Some x \<Rightarrow> cons_char x (parse_chars r')))
      else if (of_char c :: nat) < 0x20 then Throw SyntaxError
      else cons_char c (parse_chars r))"

text \<open>
  A property name made of digits only may be an array index, which an object enumerates
  before its other properties, in numeric order. Such names are left out of the model.
\<close>

definition digit_key :: "string \<Rightarrow> bool" where
  "digit_key k = (k \<noteq> [] \<and> list_all is_digit k)"

text \<open>
  The JSON grammar (ECMA-404), read by recursive descent. The first argument bounds the
  depth of the descent, and \<open>JSON_parse\<close> starts with more than twice the length of the
  text; where the bound is reached the result is \<open>Unsupported\<close>. A number token is
  \<open>Unsupported\<close> too. A repeated property name overwrites the earlier value in place,
  as \<open>CreateDataProperty\<close> does.
\<close>

fun parse_value :: "nat \<Rightarrow> string \<Rightarrow> (jsval \<times> string) outcome"
  and parse_elements :: "nat \<Rightarrow> string \<Rightarrow> (jsval list \<times> string) outcome"
  and parse_members ::
    "nat \<Rightarrow> (string \<times> jsval) list \<Rightarrow> string \<Rightarrow> ((string \<times> jsval) list \<times> string) outcome"
where
  "parse_value 0 s = Throw Unsupported"
| "parse_value (Suc n) s =
     (case skip_ws s of
        [] \<Rightarrow> Throw SyntaxError
      | c # r \<Rightarrow>
          if c = CHR ''{'' then
            (case skip_ws r of
               [] \<Rightarrow> Throw SyntaxError
             | c' # r' \<Rightarrow>
                 if c' = CHR ''}'' then Return (JObj [], r')
                 else (case parse_members n [] (c' # r') of
                         Throw e \<Rightarrow> Throw e
                       | Return (kvs, t) \<Rightarrow> Return (JObj kvs, t)))
          else if c = CHR ''['' then
            (case skip_ws r of
               [] \<Rightarrow> Throw SyntaxError
             | c' # r' \<Rightarrow>
                 if c' = CHR '']'' then Return (JArr [], r')
                 else (case parse_elements n (c' # r') of
                         Throw e \<Rightarrow> Throw e
                       | Return (vs, t) \<Rightarrow> Return (JArr vs, t)))
          else if c = CHR 0x22 then
            (case parse_chars r of
               Throw e \<Rightarrow> Throw e
             | Return (str, t) \<Rightarrow> Return (JStr str, t))
          else if take 4 (c # r) = ''true'' then Return (JBool True, drop 3 r)
          else if take 5 (c # r) = ''false'' then Return (JBool False, drop 4 r)
          else if take 4 (c # r) = ''null'' then Return (JNull, drop 3 r)
          else if c = CHR ''-'' \<or> is_digit c then Throw Unsupported
          else Throw SyntaxError)"
| "parse_elements 0 s = Throw Unsupported"
| "parse_elements (Suc n) s =
     (case parse_value n s of
        Throw e \<Rightarrow> Throw e
      | Return (v, t) \<Rightarrow>
          (case skip_ws t of
             [] \<Rightarrow> Throw SyntaxError
           | c # r \<Rightarrow>
               if c = CHR '','' then
                 (case parse_elements n r of
                    Throw e \<Rightarrow> Throw e
                  | Return (vs, t') \<Rightarrow> Return (v # vs, t'))
               else if c = CHR '']'' then Return ([v], r)
               else Throw SyntaxError))"
| "parse_members 0 acc s = Throw Unsupported"
| "parse_members (Suc n) acc s =
     (case skip_ws s of
        [] \<Rightarrow> Throw SyntaxError
      | c # r \<Rightarrow>
          if c \<noteq> CHR 0x22 then Throw SyntaxError
          else
            (case parse_chars r of
               Throw e \<Rightarrow> Throw e
             | Return (k, t) \<Rightarrow>
                 (case skip_ws t of
                    [] \<Rightarrow> Throw SyntaxError
                  | c1 # r1 \<Rightarrow>
                      if c1 \<noteq> CHR '':'' then Throw SyntaxError
                      else
                        (case parse_value n r1 of
                           Throw e \<Rightarrow> Throw e
                         | Return (v, t2) \<Rightarrow>
                             if digit_key k then Throw Unsupported
                             else
                               (case skip_ws t2 of
                                  [] \<Rightarrow> Throw SyntaxError
                                | c2 # r2 \<Rightarrow>
                                    if c2 = CHR '','' then
                                      parse_members n (AList.update k v acc) r2
                                    else if c2 = CHR ''}'' then
                                      Return (AList.update k v acc, r2)
                                    else Throw SyntaxError)))))"

definition JSON_parse :: "string \<Rightarrow> jsval outcome" where
  "JSON_parse text =
     (case parse_value (2 * length text + 2) text of
        Throw e \<Rightarrow> Throw e
      | Return (v, t) \<Rightarrow> if skip_ws t = [] then Return v else Throw SyntaxError)"

section \<open>The page: module state and browser state\<close>

text \<open>
  \<open>guahh-auth.js\<close> keeps its state in module variables (\<open>callbacks\<close>, \<open>authPopup\<close>)
  and in the browser (\<open>localStorage\<close>, the window's message listeners, the running
  intervals, the windows that are closed). One record holds all of it, and every
  operation takes the record and returns it updated. \<open>effects\<close> is the log of what the
  code did to the outside world, in the order it did it. The storage is available and
  has room: reading it, writing to it and removing from it do not throw.

  A function supplied by the calling page is known by an identity only. Calling it is
  logged; it returns normally and does not call back into the widget. \<open>OnSuccessWrapper f\<close>
  is the arrow function that \<open>showLogin\<close> builds around its \<open>onSuccess\<close> option \<open>f\<close>.
\<close>

type_synonym window = nat
type_synonym timer = nat
type_synonym fn = nat

datatype callback = Fn fn | OnSuccessWrapper fn

datatype jsarg = Function callback | Value jsval

datatype effect =
    SetItem string string
  | RemoveItem string
  | Call fn "jsval list"
  | AddMessageListener
  | Uncaught error
  | WindowOpen string string string
  | Focus window
  | Close window
  | SetInterval timer nat
  | ClearInterval timer
  | ConsoleError string
  | Alert string

record page =
  localStorage :: "string \<rightharpoonup> string"
  callbacks_login :: "callback list"
  callbacks_logout :: "callback list"
  authPopup :: "window option"
  message_listeners :: nat
  intervals :: "timer list"
  closed_windows :: "window set"
  effects :: "effect list"

record message_event =
  data :: jsval
  origin :: string
  source :: "window option"

definition AUTH_PAGE_URL :: string where
  "AUTH_PAGE_URL = ''guahh-auth-page.html''"

definition STORAGE_KEY :: string where
  "STORAGE_KEY = ''guahh_user''"

definition log :: "effect list \<Rightarrow> page \<Rightarrow> page" where
  "log es s = s\<lparr>effects := effects s @ es\<rparr>"

definition localStorage_setItem :: "string \<Rightarrow> string \<Rightarrow> page \<Rightarrow> page" where
  "localStorage_setItem k v s = log [SetItem k v] (s\<lparr>localStorage := (localStorage s)(k \<mapsto> v)\<rparr>)"

definition localStorage_removeItem :: "string \<Rightarrow> page \<Rightarrow> page" where
  "localStorage_removeItem k s = log [RemoveItem k] (s\<lparr>localStorage := (localStorage s)(k := None)\<rparr>)"

text \<open>\<open>w.close()\<close> on a window the page opened closes it.\<close>

definition window_close :: "window \<Rightarrow> page \<Rightarrow> page" where
  "window_close w s = log [Close w] (s\<lparr>closed_windows := insert w (closed_windows s)\<rparr>)"

definition clearInterval :: "timer \<Rightarrow> page \<Rightarrow> page" where
  "clearInterval t s = log [ClearInterval t] (s\<lparr>intervals := removeAll t (intervals s)\<rparr>)"

fun callee :: "callback \<Rightarrow> fn" where
  "callee (Fn f) = f"
| "callee (OnSuccessWrapper f) = f"

definition invoke :: "callback \<Rightarrow> jsval list \<Rightarrow> page \<Rightarrow> page" where
  "invoke cb args s = log [Call (callee cb) args] s"

text \<open>\<open>cbs.forEach(cb => cb(args))\<close>\<close>

definition forEach :: "callback list \<Rightarrow> jsval list \<Rightarrow> page \<Rightarrow> page" where
  "forEach cbs args s = fold (\<lambda>cb. invoke cb args) cbs s"

section \<open>\<open>guahh-auth.js\<close>\<close>

text \<open>
  Line 36: \<open>localStorage.setItem(STORAGE_KEY, JSON.stringify(user))\<close>. When
  \<open>JSON.stringify\<close> throws, nothing is stored. \<open>setItem\<close> turns its argument into a
  string, so the \<open>undefined\<close> that \<open>JSON.stringify\<close> gives for an \<open>undefined\<close> user is
  stored as the text \<open>undefined\<close>.
\<close>

definition setUser :: "jsval \<Rightarrow> page \<Rightarrow> unit outcome \<times> page" where
  "setUser user s =
     (case JSON_stringify user of
        Throw e \<Rightarrow> (Throw e, s)
      | Return t \<Rightarrow>
          (Return (),
           localStorage_setItem STORAGE_KEY (case t of None \<Rightarrow> ''undefined'' | Some x \<Rightarrow> x) s))"

text \<open>
  Lines 32 to 46: the body of the message listener that \<open>init\<close> registers. Nothing in
  it catches an exception: one thrown by line 36 leaves the listener at once.
\<close>

definition message_listener :: "message_event \<Rightarrow> page \<Rightarrow> unit outcome \<times> page" where
  "message_listener event s =
     (if js_truthy (data event) \<and> js_get (data event) ''type'' = Return (JStr ''GUAHH_AUTH_SUCCESS'')
      then
        (case js_get (data event) ''user'' of
           Throw e \<Rightarrow> (Throw e, s)
         | Return user \<Rightarrow>
             (case js_get (data event) ''service'' of
                Throw e \<Rightarrow> (Throw e, s)
              | Return service \<Rightarrow>
                  (case setUser user s of
                     (Throw e, s1) \<Rightarrow> (Throw e, s1)
                   | (Return u, s1) \<Rightarrow>
                       (let s2 = forEach (callbacks_login s1) [user, service] s1
                        in (Return (),
                            case authPopup s2 of
                              Some w \<Rightarrow> (window_close w s2)\<lparr>authPopup := None\<rparr>
                            | None \<Rightarrow> s2)))))
      else (Return (), s))"

text \<open>Lines 107 to 110.\<close>

definition getUser :: "page \<Rightarrow> jsval outcome" where
  "getUser s =
     (case localStorage s STORAGE_KEY of
        None \<Rightarrow> Return JNull
      | Some storedUser \<Rightarrow> if storedUser \<noteq> [] then JSON_parse storedUser else Return JNull)"

record init_options =
  authPageUrl :: "string option"

text \<open>
  Lines 27 to 56. The local \<open>authPageUrl\<close> is computed and not used. Nothing tells
  whether \<open>init\<close> has run before: every call adds a listener.
\<close>

definition init :: "init_options \<Rightarrow> page \<Rightarrow> unit outcome \<times> page" where
  "init options s =
     (let authPageUrl =
            (case authPageUrl options of
               None \<Rightarrow> AUTH_PAGE_URL
             | Some u \<Rightarrow> if u \<noteq> [] then u else AUTH_PAGE_URL);
          s1 = log [AddMessageListener] (s\<lparr>message_listeners := Suc (message_listeners s)\<rparr>)
      in case localStorage s1 STORAGE_KEY of
           None \<Rightarrow> (Return (), s1)
         | Some storedUser \<Rightarrow>
             if storedUser \<noteq> [] then
               (case JSON_parse storedUser of
                  Throw e \<Rightarrow> (Throw e, s1)
                | Return user \<Rightarrow>
                    (Return (),
                     forEach (callbacks_login s1)
                       [user, JObj [(''serviceName'', JStr ''Cached Session'')]] s1))
             else (Return (), s1))"

text \<open>Lines 115 to 121.\<close>

definition logout :: "page \<Rightarrow> unit outcome \<times> page" where
  "logout s =
     (case getUser s of
        Throw e \<Rightarrow> (Throw e, s)
      | Return user \<Rightarrow>
          (let s1 = localStorage_removeItem STORAGE_KEY s
           in (Return (), forEach (callbacks_logout s1) [user] s1)))"

text \<open>Lines 127 to 141: \<open>typeof callback === 'function'\<close> holds of functions only.\<close>

definition onLogin :: "jsarg \<Rightarrow> page \<Rightarrow> page" where
  "onLogin callback s =
     (case callback of
        Function cb \<Rightarrow> s\<lparr>callbacks_login := callbacks_login s @ [cb]\<rparr>
      | Value v \<Rightarrow> s)"

definition onLogout :: "jsarg \<Rightarrow> page \<Rightarrow> page" where
  "onLogout callback s =
     (case callback of
        Function cb \<Rightarrow> s\<lparr>callbacks_logout := callbacks_logout s @ [cb]\<rparr>
      | Value v \<Rightarrow> s)"

subsection \<open>\<open>show\<close>\<close>

text \<open>
  What \<open>show\<close> reads from the browser: the document's title, the page's origin, the
  screen's size (\<open>Screen.width\<close> and \<open>height\<close> are integers), what \<open>window.open\<close>
  returns (\<open>None\<close> when the popup is blocked) and the id \<open>setInterval\<close> returns.
\<close>

record browser =
  document_title :: string
  location_origin :: string
  screen_width :: int
  screen_height :: int
  window_open_result :: "window option"
  setInterval_result :: timer

record service_info =
  name :: "string option"
  url :: "string option"

text \<open>\<open>a || b\<close> for an optional string \<open>a\<close>: absent and empty are falsy.\<close>

definition or_else :: "string option \<Rightarrow> string \<Rightarrow> string" where
  "or_else a b = (case a of None \<Rightarrow> b | Some x \<Rightarrow> if x \<noteq> [] then x else b)"

text \<open>
  \<open>URLSearchParams.toString\<close>: the \<open>application/x-www-form-urlencoded\<close> serializer over
  the UTF-8 bytes of each name and value.
\<close>

definition utf8_encode :: "char \<Rightarrow> nat list" where
  "utf8_encode c =
     (let n = (of_char c :: nat) in if n < 128 then [n] else [192 + n div 64, 128 + n mod 64])"

definition hex_uc :: "nat \<Rightarrow> char" where
  "hex_uc n = ''0123456789ABCDEF'' ! n"

definition urlencode_byte :: "nat \<Rightarrow> string" where
  "urlencode_byte b =
     (if b = 0x20 then ''+''
      else if (48 \<le> b \<and> b \<le> 57) \<or> (65 \<le> b \<and> b \<le> 90) \<or> (97 \<le> b \<and> b \<le> 122)
              \<or> b = 0x2A \<or> b = 0x2D \<or> b = 0x2E \<or> b = 0x5F
      then [char_of b]
      else [CHR ''%'', hex_uc (b div 16), hex_uc (b mod 16)])"

definition urlencode :: "string \<Rightarrow> string" where
  "urlencode s = concat (map urlencode_byte (concat (map utf8_encode s)))"

fun URLSearchParams_toString :: "(string \<times> string) list \<Rightarrow> string" where
  "URLSearchParams_toString [] = []"
| "URLSearchParams_toString [(k, v)] = urlencode k @ CHR ''='' # urlencode v"
| "URLSearchParams_toString ((k, v) # p # ps) =
     urlencode k @ CHR ''='' # urlencode v @ CHR ''&'' # URLSearchParams_toString (p # ps)"

text \<open>An integer in a template literal.\<close>

function show_nat :: "nat \<Rightarrow> string" where
  "show_nat n =
     (if n < 10 then [char_of (48 + n)] else show_nat (n div 10) @ [char_of (48 + n mod 10)])"
  by pat_completeness auto
termination
  by (relation "measure id") auto

definition show_int :: "int \<Rightarrow> string" where
  "show_int i = (if i < 0 then CHR ''-'' # show_nat (nat (- i)) else show_nat (nat i))"

text \<open>
  \<open>Math.round\<close> rounds a half up. \<open>show\<close> applies it to \<open>a / 2 - b / 2\<close> for integers
  \<open>a\<close> and \<open>b\<close>; \<open>Math_round_halves n\<close> is \<open>Math.round(n / 2)\<close>.
\<close>

definition Math_round_halves :: "int \<Rightarrow> int" where
  "Math_round_halves n = (n + 1) div 2"

text \<open>Lines 64 to 101, and the interval's callback of lines 91 to 96.\<close>

definition show_popup :: "service_info \<Rightarrow> browser \<Rightarrow> page \<Rightarrow> page" where
  "show_popup serviceInfo b s =
     (let serviceName = or_else (name serviceInfo) (or_else (Some (document_title b)) ''this service'');
          serviceUrl = or_else (url serviceInfo) (location_origin b);
          params = URLSearchParams_toString [(''service'', serviceName), (''url'', serviceUrl)];
          authUrl = AUTH_PAGE_URL @ ''?'' @ params;
          width = 500;
          height = 650;
          left = Math_round_halves (screen_width b - width);
          top = Math_round_halves (screen_height b - height);
          features = ''width='' @ show_int width @ '',height='' @ show_int height
            @ '',left='' @ show_int left @ '',top='' @ show_int top
            @ '',resizable=yes,scrollbars=yes,status=yes'';
          s1 = log [WindowOpen authUrl ''GuahhAuth'' features] (s\<lparr>authPopup := window_open_result b\<rparr>)
      in case authPopup s1 of
           Some w \<Rightarrow>
             log [Focus w, SetInterval (setInterval_result b) 500]
               (s1\<lparr>intervals := intervals s1 @ [setInterval_result b]\<rparr>)
         | None \<Rightarrow>
             log [ConsoleError ''Popup blocked. Please allow popups for this site.'',
                  Alert ''Please allow popups to sign in with Guahh Account.''] s1)"

definition pollTimer_callback :: "timer \<Rightarrow> page \<Rightarrow> page" where
  "pollTimer_callback pollTimer s =
     (case authPopup s of
        Some w \<Rightarrow>
          if w \<in> closed_windows s then (clearInterval pollTimer s)\<lparr>authPopup := None\<rparr> else s
      | None \<Rightarrow> s)"

section \<open>\<open>guahh-auth-api.js\<close>\<close>

record showLogin_options =
  serviceName :: "string option"
  serviceUrl :: "string option"
  onSuccess :: "fn option"

text \<open>
  Lines 72 to 85. The option \<open>onSuccess\<close> is a function when it is present, as its JSDoc
  declares.
\<close>

definition showLogin :: "showLogin_options \<Rightarrow> browser \<Rightarrow> page \<Rightarrow> page" where
  "showLogin options b s =
     (let s1 = (case onSuccess options of
                  Some f \<Rightarrow> onLogin (Function (OnSuccessWrapper f)) s
                | None \<Rightarrow> s)
      in show_popup \<lparr>name = serviceName options, url = serviceUrl options\<rparr> b s1)"

definition getCurrentUser :: "page \<Rightarrow> jsval outcome" where
  "getCurrentUser s = getUser s"

definition isLoggedIn :: "page \<Rightarrow> bool outcome" where
  "isLoggedIn s = (case getUser s of Throw e \<Rightarrow> Throw e | Return u \<Rightarrow> Return (u \<noteq> JNull))"

text \<open>Lines 113 to 118: \<open>if (callback)\<close> holds of every function.\<close>

definition GuahhAuthAPI_logout :: "jsarg \<Rightarrow> page \<Rightarrow> unit outcome \<times> page" where
  "GuahhAuthAPI_logout callback s =
     (let s1 = (if (case callback of Function cb \<Rightarrow> True | Value v \<Rightarrow> js_truthy v)
                then onLogout callback s else s)
      in logout s1)"

definition GuahhAuthAPI_onLogin :: "jsarg \<Rightarrow> page \<Rightarrow> page" where
  "GuahhAuthAPI_onLogin handler s = onLogin handler s"

definition GuahhAuthAPI_onLogout :: "jsarg \<Rightarrow> page \<Rightarrow> page" where
  "GuahhAuthAPI_onLogout handler s = onLogout handler s"

section \<open>Events\<close>

text \<open>
  The window delivers a message event to every registered listener, one after the
  other. All listeners that \<open>init\<close> registers have the same body. An exception that a
  listener throws is reported by the window (\<open>Uncaught\<close>, in the log), and the listeners
  after it still run.
\<close>

definition dispatch :: "message_event \<Rightarrow> page \<Rightarrow> page" where
  "dispatch event s =
     (case message_listener event s of
        (Return u, s1) \<Rightarrow> s1
      | (Throw e, s1) \<Rightarrow> log [Uncaught e] s1)"

definition deliver_message :: "message_event \<Rightarrow> page \<Rightarrow> page" where
  "deliver_message event s = ((dispatch event) ^^ (message_listeners s)) s"

text \<open>The browser runs an interval's callback only while the interval is active.\<close>

definition interval_tick :: "timer \<Rightarrow> page \<Rightarrow> page" where
  "interval_tick t s = (if t \<in> set (intervals s) then pollTimer_callback t s else s)"

text \<open>The user closes a window by hand.\<close>

definition user_closes :: "window \<Rightarrow> page \<Rightarrow> page" where
  "user_closes w s = s\<lparr>closed_windows := insert w (closed_windows s)\<rparr>"

text \<open>Everything that can happen to the page: calls of the two APIs and browser events.\<close>

datatype action =
    Init init_options
  | Show service_info browser
  | Logout
  | OnLogin jsarg
  | OnLogout jsarg
  | ShowLogin showLogin_options browser
  | ApiLogout jsarg
  | Message message_event
  | Tick timer
  | UserCloses window

fun step :: "action \<Rightarrow> page \<Rightarrow> page" where
  "step (Init options) s = snd (init options s)"
| "step (Show serviceInfo b) s = show_popup serviceInfo b s"
| "step Logout s = snd (logout s)"
| "step (OnLogin cb) s = onLogin cb s"
| "step (OnLogout cb) s = onLogout cb s"
| "step (ShowLogin options b) s = showLogin options b s"
| "step (ApiLogout cb) s = snd (GuahhAuthAPI_logout cb s)"
| "step (Message event) s = deliver_message event s"
| "step (Tick t) s = interval_tick t s"
| "step (UserCloses w) s = user_closes w s"

definition run :: "action list \<Rightarrow> page \<Rightarrow> page" where
  "run as s = fold step as s"

text \<open>The page as the script finds it when it loads, over a given \<open>localStorage\<close>.\<close>

definition fresh_page :: "(string \<rightharpoonup> string) \<Rightarrow> page" where
  "fresh_page store =
     \<lparr>localStorage = store, callbacks_login = [], callbacks_logout = [], authPopup = None,
      message_listeners = 0, intervals = [], closed_windows = {}, effects = []\<rparr>"

section \<open>Vocabulary of the properties\<close>

text \<open>
  The text that line 36 stores for a user that \<open>JSON.stringify\<close> serializes. (Where
  \<open>JSON.stringify\<close> throws, nothing is stored, and the text is empty.)
\<close>

definition stored_text :: "jsval \<Rightarrow> string" where
  "stored_text user =
     (case JSON_stringify user of
        Throw e \<Rightarrow> []
      | Return t \<Rightarrow> (case t of None \<Rightarrow> ''undefined'' | Some x \<Rightarrow> x))"

text \<open>The calls that one \<open>forEach\<close> over a callback list makes.\<close>

definition calls :: "callback list \<Rightarrow> jsval list \<Rightarrow> effect list" where
  "calls cbs args = map (\<lambda>cb. Call (callee cb) args) cbs"

text \<open>
  The two ways in which the widget ends its tracking of a popup show in the log: the
  handshake path calls \<open>close\<close> on the popup, the poll path clears its interval.
\<close>

fun is_termination :: "effect \<Rightarrow> bool" where
  "is_termination (Close w) = True"
| "is_termination (ClearInterval t) = True"
| "is_termination e = False"

definition terminations :: "effect list \<Rightarrow> effect list" where
  "terminations es = filter is_termination es"

text \<open>
  The actions that call \<open>window.open\<close>: \<open>show\<close>, and \<open>showLogin\<close>, which calls it. Such an
  action opens a popup when \<open>window.open\<close> returns a window; it returns \<open>null\<close> when the
  popup is blocked.
\<close>

fun is_show :: "action \<Rightarrow> bool" where
  "is_show (Show serviceInfo b) = True"
| "is_show (ShowLogin options b) = True"
| "is_show a = False"

fun opens_popup :: "action \<Rightarrow> bool" where
  "opens_popup (Show serviceInfo b) = (window_open_result b \<noteq> None)"
| "opens_popup (ShowLogin options b) = (window_open_result b \<noteq> None)"
| "opens_popup a = False"

text \<open>
  The steps that end the tracking of a popup: a message step that finds a window in the
  handle and leaves the handle \<open>null\<close> (the handshake path, which calls \<open>close\<close> on the
  window), and a tick that does (the poll path, which clears the ticking interval).
  \<open>ends_tracking\<close> gives the window with the termination that the step logs, and
  \<open>ended\<close> collects them over a run.
\<close>

fun ends_tracking :: "action \<Rightarrow> page \<Rightarrow> (window \<times> effect) list" where
  "ends_tracking (Message event) s =
     (case authPopup s of
        Some w \<Rightarrow> if authPopup (deliver_message event s) = None then [(w, Close w)] else []
      | None \<Rightarrow> [])"
| "ends_tracking (Tick t) s =
     (case authPopup s of
        Some w \<Rightarrow> if authPopup (interval_tick t s) = None then [(w, ClearInterval t)] else []
      | None \<Rightarrow> [])"
| "ends_tracking a s = []"

fun ended :: "action list \<Rightarrow> page \<Rightarrow> (window \<times> effect) list" where
  "ended [] s = []"
| "ended (a # as) s = ends_tracking a s @ ended as (step a s)"

text \<open>
  A browser's \<open>window.open\<close> returns a new window, or the open window that has the
  given name; it never returns a window that is closed. \<open>live_opens acts s\<close> says so of
  every \<open>show\<close> and \<open>showLogin\<close> of the run \<open>acts\<close> from \<open>s\<close>.
\<close>

fun open_result_live :: "action \<Rightarrow> page \<Rightarrow> bool" where
  "open_result_live (Show serviceInfo b) s =
     (case window_open_result b of Some w \<Rightarrow> w \<notin> closed_windows s | None \<Rightarrow> True)"
| "open_result_live (ShowLogin options b) s =
     (case window_open_result b of Some w \<Rightarrow> w \<notin> closed_windows s | None \<Rightarrow> True)"
| "open_result_live a s = True"

fun live_opens :: "action list \<Rightarrow> page \<Rightarrow> bool" where
  "live_opens [] s = True"
| "live_opens (a # as) s = (open_result_live a s \<and> live_opens as (step a s))"

text \<open>
  The values that \<open>JSON.stringify\<close> and \<open>JSON.parse\<close> carry unchanged: no \<open>undefined\<close>,
  no BigInt and no back reference anywhere, and objects whose property names are
  distinct and not made of digits.
\<close>

function json_clean :: "jsval \<Rightarrow> bool"
  and json_clean_elems :: "jsval list \<Rightarrow> bool"
  and json_clean_props :: "(string \<times> jsval) list \<Rightarrow> bool"
where
  "json_clean JUndefined = False"
| "json_clean JNull = True"
| "json_clean (JBool b) = True"
| "json_clean (JStr s) = True"
| "json_clean (JBigInt n) = False"
| "json_clean JCyclicRef = False"
| "json_clean (JArr xs) = json_clean_elems xs"
| "json_clean (JObj kvs) = (distinct (map fst kvs) \<and> json_clean_props kvs)"
| "json_clean_elems [] = True"
| "json_clean_elems (x # xs) = (json_clean x \<and> json_clean_elems xs)"
| "json_clean_props [] = True"
| "json_clean_props ((k, v) # kvs) = (\<not> digit_key k \<and> json_clean v \<and> json_clean_props kvs)"
  by pat_completeness auto
termination
  by (relation "measure (\<lambda>a. case a of
          Inl v \<Rightarrow> size v
        | Inr (Inl xs) \<Rightarrow> size_list size xs
        | Inr (Inr kvs) \<Rightarrow> size_list (size_prod (\<lambda>_. 0) size) kvs)") auto

text \<open>
  A well-formed user record: an object that JSON carries unchanged, in which each
  recognised field that is present has its type: \<open>userId\<close>, \<open>username\<close>, \<open>displayName\<close>
  and \<open>profilePictureUrl\<close> are strings, \<open>isVerified\<close> is a boolean and
  \<open>connectedServices\<close> is an array.
\<close>

fun is_string :: "jsval \<Rightarrow> bool" where
  "is_string (JStr s) = True"
| "is_string v = False"

fun is_boolean :: "jsval \<Rightarrow> bool" where
  "is_boolean (JBool b) = True"
| "is_boolean v = False"

fun is_array :: "jsval \<Rightarrow> bool" where
  "is_array (JArr xs) = True"
| "is_array v = False"

definition field_is :: "(jsval \<Rightarrow> bool) \<Rightarrow> (string \<times> jsval) list \<Rightarrow> string \<Rightarrow> bool" where
  "field_is P kvs k = (case map_of kvs k of None \<Rightarrow> True | Some v \<Rightarrow> P v)"

fun wf_UserRecord :: "jsval \<Rightarrow> bool" where
  "wf_UserRecord (JObj kvs) =
     (json_clean (JObj kvs)
      \<and> field_is is_string kvs ''userId''
      \<and> field_is is_string kvs ''username''
      \<and> field_is is_string kvs ''displayName''
      \<and> field_is is_string kvs ''profilePictureUrl''
      \<and> field_is is_boolean kvs ''isVerified''
      \<and> field_is is_array kvs ''connectedServices'')"
| "wf_UserRecord v = False"

text \<open>The characters a serialized value can start with.\<close>

definition value_start :: "char \<Rightarrow> bool" where
  "value_start c = (c = CHR ''n'' \<or> c = CHR ''t'' \<or> c = CHR ''f'' \<or> c = CHR 0x22
     \<or> c = CHR ''['' \<or> c = CHR ''{'')"

text \<open>A concrete page and a concrete handshake, for evaluating the properties.\<close>

definition example_user :: jsval where
  "example_user =
     JObj [(''userId'', JStr ''42''), (''username'', JStr ''ada''), (''displayName'', JStr ''Ada L.'')]"

definition example_user_text :: string where
  "example_user_text =
     CHR ''{'' # CHR 0x22 # ''userId'' @ CHR 0x22 # CHR '':'' # CHR 0x22 # ''42'' @ CHR 0x22 # CHR '','' #
     CHR 0x22 # ''username'' @ CHR 0x22 # CHR '':'' # CHR 0x22 # ''ada'' @ CHR 0x22 # CHR '','' #
     CHR 0x22 # ''displayName'' @ CHR 0x22 # CHR '':'' # CHR 0x22 # ''Ada L.'' @ [CHR 0x22, CHR ''}'']"

definition example_event :: message_event where
  "example_event =
     \<lparr>data = JObj [(''type'', JStr ''GUAHH_AUTH_SUCCESS''), (''user'', example_user),
                   (''service'', JObj [(''name'', JStr ''Acme'')])],
      origin = ''https://elsewhere.test'', source = None\<rparr>"

text \<open>
  Two handshakes whose \<open>user\<close> \<open>JSON.stringify\<close> does not serialize: one has a BigInt
  for its \<open>userId\<close>, the other has a property that refers back to the payload.
\<close>

definition bigint_user :: jsval where
  "bigint_user = JObj [(''userId'', JBigInt 42), (''username'', JStr ''ada'')]"

definition bigint_event :: message_event where
  "bigint_event =
     \<lparr>data = JObj [(''type'', JStr ''GUAHH_AUTH_SUCCESS''), (''user'', bigint_user),
                   (''service'', JObj [(''name'', JStr ''Acme'')])],
      origin = ''https://acme.test'', source = Some 7\<rparr>"


definition example_page :: page where
  "example_page =
     \<lparr>localStorage = Map.empty, callbacks_login = [Fn 1, OnSuccessWrapper 2],
      callbacks_logout = [Fn 3], authPopup = Some 7, message_listeners = 1, intervals = [5],
      closed_windows = {}, effects = []\<rparr>"

definition example_browser :: browser where
  "example_browser =
     \<lparr>document_title = ''Acme'', location_origin = ''https://acme.test'', screen_width = 1921,
      screen_height = 1080, window_open_result = Some 7, setInterval_result = 5\<rparr>"

definition second_browser :: browser where
  "second_browser =
     \<lparr>document_title = ''Acme'', location_origin = ''https://acme.test'', screen_width = 1921,
      screen_height = 1080, window_open_result = Some 8, setInterval_result = 6\<rparr>"

definition blocking_browser :: browser where
  "blocking_browser =
     \<lparr>document_title = ''Acme'', location_origin = ''https://acme.test'', screen_width = 1921,
      screen_height = 1080, window_open_result = None, setInterval_result = 9\<rparr>"

section \<open>Properties\<close>

subsection \<open>Effects of a dispatch\<close>

lemma log_Nil: "log [] s = s"
  by (simp add: log_def)

lemma log_log: "log b (log a s) = log (a @ b) s"
  by (simp add: log_def)

lemma forEach_log: "forEach cbs args s = log (map (\<lambda>cb. Call (callee cb) args) cbs) s"
proof (induction cbs arbitrary: s)
  case Nil
  show ?case by (simp add: forEach_def log_def)
next
  case (Cons cb cbs)
  have "forEach (cb # cbs) args s = forEach cbs args (invoke cb args s)"
    by (simp add: forEach_def)
  also have "\<dots> = log (map (\<lambda>cb. Call (callee cb) args) cbs) (log [Call (callee cb) args] s)"
    by (simp add: Cons.IH invoke_def)
  finally show ?case by (simp add: log_log)
qed

lemma funpow_fixed: "f s = s \<Longrightarrow> (f ^^ n) s = s"
  by (induction n) simp_all

lemma js_get_string_truthy: "js_get d p = Return (JStr (c # cs)) \<Longrightarrow> js_truthy d"
  by (cases d) auto

subsection \<open>The JSON round trip\<close>

lemma hex_val_hex_lc: "k < 16 \<Longrightarrow> hex_val (hex_lc k) = Some k"
proof -
  assume "k < 16"
  then have "k = 0 \<or> k = 1 \<or> k = 2 \<or> k = 3 \<or> k = 4 \<or> k = 5 \<or> k = 6 \<or> k = 7 \<or> k = 8
      \<or> k = 9 \<or> k = 10 \<or> k = 11 \<or> k = 12 \<or> k = 13 \<or> k = 14 \<or> k = 15"
    by arith
  then show ?thesis
    by (elim disjE) (simp_all add: hex_val_def hex_lc_def)
qed

lemma hex_val_zero: "hex_val (CHR ''0'') = Some 0"
  by (simp add: hex_val_def)

lemma cons_char_Return: "cons_char c (Return (cs, t)) = Return (c # cs, t)"
  by (simp add: cons_char_def)

lemma parse_chars_UnicodeEscape:
  assumes "(of_char c :: nat) < 0x20"
  shows "parse_chars (UnicodeEscape c @ t) = cons_char c (parse_chars t)"
proof -
  have d: "(of_char c :: nat) div 16 < 16" and m: "(of_char c :: nat) mod 16 < 16"
    using assms by simp_all
  have "char_of ((of_char c :: nat) div 16 * 16 + of_char c mod 16) = c"
    by simp
  then show ?thesis
    by (simp add: UnicodeEscape_def hex_val_hex_lc [OF d] hex_val_hex_lc [OF m] hex_val_zero)
qed

lemma parse_chars_quote_char: "parse_chars (quote_char c @ t) = cons_char c (parse_chars t)"
proof (cases "(of_char c :: nat) < 0x20")
  case True
  then show ?thesis
    by (auto simp: quote_char_def parse_chars_UnicodeEscape unescape_def)
next
  case False
  then show ?thesis
    by (auto simp: quote_char_def unescape_def)
qed

lemma parse_chars_quoted:
  "parse_chars (concat (map quote_char s) @ CHR 0x22 # rest) = Return (s, rest)"
  by (induction s) (simp_all add: parse_chars_quote_char cons_char_Return)

lemma ser_None: "SerializeJSONProperty v = Return None \<Longrightarrow> v = JUndefined"
  by (cases v) (auto split: outcome.splits)

lemma clean_Some:
  "json_clean v \<Longrightarrow> SerializeJSONProperty v = Return t \<Longrightarrow> \<exists>u. t = Some u"
  using ser_None [of v] by (cases t) auto

lemma ser_start:
  "SerializeJSONProperty v = Return (Some t) \<Longrightarrow> \<exists>c r. t = c # r \<and> value_start c"
  by (cases v) (auto simp: QuoteJSONString_def value_start_def split: outcome.splits)

lemma SerializeJSONArray_Cons:
  assumes "SerializeJSONArray (x # xs) = Return ts"
  shows "\<exists>t ts'. SerializeJSONProperty x = Return t \<and> SerializeJSONArray xs = Return ts'
     \<and> ts = (case t of None \<Rightarrow> ''null'' | Some u \<Rightarrow> u) # ts'"
  using assms by (auto split: outcome.splits)

lemma SerializeJSONObject_Cons:
  assumes "SerializeJSONObject ((k, v) # kvs) = Return ts"
  shows "\<exists>t ts'. SerializeJSONProperty v = Return t \<and> SerializeJSONObject kvs = Return ts'
     \<and> ts = (case t of None \<Rightarrow> ts' | Some u \<Rightarrow> (QuoteJSONString k @ CHR '':'' # u) # ts')"
  using assms by (auto split: outcome.splits)

lemma serializes:
  "json_clean v \<Longrightarrow> \<exists>t. SerializeJSONProperty v = Return (Some t)"
  "json_clean_elems xs \<Longrightarrow> \<exists>ts. SerializeJSONArray xs = Return ts"
  "json_clean_props kvs \<Longrightarrow> \<exists>ts. SerializeJSONObject kvs = Return ts"
proof (induction v and xs and kvs
    rule: SerializeJSONProperty_SerializeJSONArray_SerializeJSONObject.induct)
  case (10 x xs)
  then obtain t where t: "SerializeJSONProperty x = Return (Some t)" by auto
  from 10(2) [OF t] 10(3) obtain ts where "SerializeJSONArray xs = Return ts" by auto
  with t show ?case by simp
next
  case (12 k v kvs)
  then obtain t where t: "SerializeJSONProperty v = Return (Some t)" by auto
  from 12(2) [OF t] 12(3) obtain ts where "SerializeJSONObject kvs = Return ts" by auto
  with t show ?case by simp
qed auto

lemma skip_ws_start: "value_start c \<Longrightarrow> skip_ws (c # r) = c # r"
  by (auto simp: skip_ws_def is_ws_def value_start_def)

lemma skip_ws_delim:
  "skip_ws (CHR '','' # r) = CHR '','' # r"
  "skip_ws (CHR '']'' # r) = CHR '']'' # r"
  "skip_ws (CHR ''}'' # r) = CHR ''}'' # r"
  "skip_ws (CHR '':'' # r) = CHR '':'' # r"
  by (simp_all add: skip_ws_def is_ws_def)

declare parse_value.simps(2) [simp del] parse_elements.simps(2) [simp del]
  parse_members.simps(2) [simp del]

lemma parse_value_null: "parse_value (Suc m) (''null'' @ rest) = Return (JNull, rest)"
  by (simp add: parse_value.simps(2) skip_ws_def is_ws_def)

lemma parse_value_true: "parse_value (Suc m) (''true'' @ rest) = Return (JBool True, rest)"
  by (simp add: parse_value.simps(2) skip_ws_def is_ws_def)

lemma parse_value_false: "parse_value (Suc m) (''false'' @ rest) = Return (JBool False, rest)"
  by (simp add: parse_value.simps(2) skip_ws_def is_ws_def)

lemma parse_value_string:
  "parse_value (Suc m) (QuoteJSONString s @ rest) = Return (JStr s, rest)"
  by (simp add: parse_value.simps(2) skip_ws_def is_ws_def QuoteJSONString_def parse_chars_quoted)

lemma parse_value_array_empty:
  "parse_value (Suc m) (CHR ''['' # CHR '']'' # rest) = Return (JArr [], rest)"
  by (simp add: parse_value.simps(2) skip_ws_def is_ws_def)

lemma parse_value_object_empty:
  "parse_value (Suc m) (CHR ''{'' # CHR ''}'' # rest) = Return (JObj [], rest)"
  by (simp add: parse_value.simps(2) skip_ws_def is_ws_def)

lemma parse_value_array:
  assumes "value_start c" and "parse_elements m (c # r) = Return (xs, rest)"
  shows "parse_value (Suc m) (CHR ''['' # c # r) = Return (JArr xs, rest)"
proof -
  have "skip_ws (c # r) = c # r" using assms(1) by (rule skip_ws_start)
  moreover have "c \<noteq> CHR '']''" using assms(1) by (auto simp: value_start_def)
  ultimately show ?thesis
    using assms(2) by (simp add: parse_value.simps(2) skip_ws_def is_ws_def)
qed

lemma parse_value_object:
  assumes "parse_members m [] (CHR 0x22 # r) = Return (kvs, rest)"
  shows "parse_value (Suc m) (CHR ''{'' # CHR 0x22 # r) = Return (JObj kvs, rest)"
  using assms by (simp add: parse_value.simps(2) skip_ws_def is_ws_def)

lemma parse_elements_last:
  assumes "parse_value m s = Return (x, CHR '']'' # rest)"
  shows "parse_elements (Suc m) s = Return ([x], rest)"
  using assms by (simp add: parse_elements.simps(2) skip_ws_delim)

lemma parse_elements_more:
  assumes "parse_value m s = Return (x, CHR '','' # s')"
    and "parse_elements m s' = Return (xs, rest)"
  shows "parse_elements (Suc m) s = Return (x # xs, rest)"
  using assms by (simp add: parse_elements.simps(2) skip_ws_delim)

lemma parse_members_key:
  "parse_members (Suc m) acc (QuoteJSONString k @ CHR '':'' # s) =
     (case parse_value m s of
        Throw e \<Rightarrow> Throw e
      | Return (v, t2) \<Rightarrow>
          if digit_key k then Throw Unsupported
          else
            (case skip_ws t2 of
               [] \<Rightarrow> Throw SyntaxError
             | c2 # r2 \<Rightarrow>
                 if c2 = CHR '','' then parse_members m (AList.update k v acc) r2
                 else if c2 = CHR ''}'' then Return (AList.update k v acc, r2)
                 else Throw SyntaxError))"
  by (simp add: parse_members.simps(2) QuoteJSONString_def skip_ws_def is_ws_def
      parse_chars_quoted)

lemma parse_members_last:
  assumes "parse_value m s = Return (v, CHR ''}'' # rest)" and "\<not> digit_key k"
  shows "parse_members (Suc m) acc (QuoteJSONString k @ CHR '':'' # s) =
     Return (AList.update k v acc, rest)"
  using assms by (simp add: parse_members_key skip_ws_delim)

lemma parse_members_more:
  assumes "parse_value m s = Return (v, CHR '','' # s')" and "\<not> digit_key k"
    and "parse_members m (AList.update k v acc) s' = Return (kvs, rest)"
  shows "parse_members (Suc m) acc (QuoteJSONString k @ CHR '':'' # s) = Return (kvs, rest)"
  using assms by (simp add: parse_members_key skip_ws_delim)

lemma update_fresh: "k \<notin> fst ` set acc \<Longrightarrow> AList.update k v acc = acc @ [(k, v)]"
  by (induction acc) auto

lemma roundtrip:
  "json_clean v \<Longrightarrow> SerializeJSONProperty v = Return (Some t) \<Longrightarrow> length t \<le> n \<Longrightarrow>
     parse_value n (t @ rest) = Return (v, rest)"
  "json_clean_elems xs \<Longrightarrow> xs \<noteq> [] \<Longrightarrow> SerializeJSONArray xs = Return ts \<Longrightarrow>
     length (join_comma ts) < n \<Longrightarrow>
     parse_elements n (join_comma ts @ CHR '']'' # rest) = Return (xs, rest)"
  "json_clean_props kvs \<Longrightarrow> kvs \<noteq> [] \<Longrightarrow> distinct (map fst acc @ map fst kvs) \<Longrightarrow>
     SerializeJSONObject kvs = Return ts \<Longrightarrow> length (join_comma ts) < n \<Longrightarrow>
     parse_members n acc (join_comma ts @ CHR ''}'' # rest) = Return (acc @ kvs, rest)"
proof (induction v and xs and kvs arbitrary: t n rest and ts n rest and acc ts n rest
    rule: SerializeJSONProperty_SerializeJSONArray_SerializeJSONObject.induct)
  case 1
  then show ?case by simp
next
  case 2
  then obtain m where n: "n = Suc m" by (cases n) auto
  from 2 have t: "t = ''null''" by simp
  show ?case unfolding t n by (rule parse_value_null)
next
  case (3 b)
  then obtain m where n: "n = Suc m" by (cases n) (auto split: if_splits)
  from 3 have t: "t = (if b then ''true'' else ''false'')" by simp
  show ?case unfolding t n
    by (cases b) (simp_all only: if_True if_False parse_value_true parse_value_false)
next
  case (4 s)
  then obtain m where n: "n = Suc m" by (cases n) (auto simp: QuoteJSONString_def)
  from 4 have t: "t = QuoteJSONString s" by simp
  show ?case unfolding t n by (rule parse_value_string)
next
  case (5 i)
  then show ?case by simp
next
  case 6
  then show ?case by simp
next
  case (7 xs)
  from 7(3) obtain ts where ts: "SerializeJSONArray xs = Return ts"
      and t: "t = CHR ''['' # join_comma ts @ [CHR '']'']"
    by (auto split: outcome.splits)
  from 7(4) obtain m where n: "n = Suc m" unfolding t by (cases n) auto
  from 7(2) have c: "json_clean_elems xs" by simp
  show ?case
  proof (cases xs)
    case Nil
    with ts have "ts = []" by simp
    then show ?thesis unfolding t n Nil by (simp add: parse_value_array_empty)
  next
    case (Cons y ys)
    from SerializeJSONArray_Cons [OF ts [unfolded Cons]] obtain oy ts' where
      oy: "SerializeJSONProperty y = Return oy" and ts': "ts = (case oy of None \<Rightarrow> ''null'' | Some u \<Rightarrow> u) # ts'"
      by blast
    from c Cons have "json_clean y" by simp
    from clean_Some [OF this oy] obtain ty where ty: "oy = Some ty" by blast
    from ser_start [OF oy [unfolded ty]] obtain c' r' where s: "ty = c' # r'" "value_start c'"
      by blast
    obtain r'' where r'': "join_comma ts = c' # r''"
      unfolding ts' ty using s by (cases ts') simp_all
    have l: "length (join_comma ts) < m"
      using 7(4) n unfolding t by simp
    have ne: "xs \<noteq> []" using Cons by simp
    have "parse_elements m (c' # r'' @ CHR '']'' # rest) = Return (xs, rest)"
      using 7(1) [OF c ne ts l, of rest] r'' by simp
    from parse_value_array [OF s(2) this] show ?thesis
      unfolding t n r'' by simp
  qed
next
  case (8 kvs)
  from 8(3) obtain ts where ts: "SerializeJSONObject kvs = Return ts"
      and t: "t = CHR ''{'' # join_comma ts @ [CHR ''}'']"
    by (auto split: outcome.splits)
  from 8(4) obtain m where n: "n = Suc m" unfolding t by (cases n) auto
  from 8(2) have c: "json_clean_props kvs" and d: "distinct (map fst kvs)" by simp_all
  show ?case
  proof (cases kvs)
    case Nil
    with ts have "ts = []" by simp
    then show ?thesis unfolding t n Nil by (simp add: parse_value_object_empty)
  next
    case (Cons p ps)
    obtain k v where p: "p = (k, v)" by (cases p)
    from SerializeJSONObject_Cons [OF ts [unfolded Cons p]] obtain ov ts' where
      ov: "SerializeJSONProperty v = Return ov"
      and ts': "ts = (case ov of None \<Rightarrow> ts' | Some u \<Rightarrow> (QuoteJSONString k @ CHR '':'' # u) # ts')"
      by blast
    from c Cons p have "json_clean v" by simp
    from clean_Some [OF this ov] obtain tv where tv: "ov = Some tv" by blast
    obtain r'' where r'': "join_comma ts = CHR 0x22 # r''"
      unfolding ts' tv by (cases ts') (simp_all add: QuoteJSONString_def)
    have l: "length (join_comma ts) < m"
      using 8(4) n unfolding t by simp
    have ne: "kvs \<noteq> []" using Cons by simp
    have d': "distinct (map fst [] @ map fst kvs)" using d by simp
    have "parse_members m [] (CHR 0x22 # r'' @ CHR ''}'' # rest) = Return (kvs, rest)"
      using 8(1) [OF c ne d' ts l, of rest] r'' by simp
    from parse_value_object [OF this] show ?thesis
      unfolding t n r'' by simp
  qed
next
  case 9
  then show ?case by simp
next
  case (10 x xs)
  from 10(6) obtain m where n: "n = Suc m" by (cases n) auto
  from 10(3) have cx: "json_clean x" and cxs: "json_clean_elems xs" by simp_all
  from SerializeJSONArray_Cons [OF 10(5)] obtain ox ts' where
    ox: "SerializeJSONProperty x = Return ox" and xs': "SerializeJSONArray xs = Return ts'"
    and ts: "ts = (case ox of None \<Rightarrow> ''null'' | Some u \<Rightarrow> u) # ts'"
    by blast
  from clean_Some [OF cx ox] obtain tx where otx: "ox = Some tx" by blast
  note tx = ox [unfolded otx]
  have ts: "ts = tx # ts'" using ts otx by simp
  obtain c r where s: "tx = c # r" using ser_start [OF tx] by blast
  show ?case
  proof (cases xs)
    case Nil
    with xs' have "ts' = []" by simp
    then have j: "join_comma ts = tx" unfolding ts by simp
    have "length tx \<le> m" using 10(6) n unfolding j by simp
    from 10(1) [OF cx tx this, of "CHR '']'' # rest"]
    show ?thesis
      unfolding Nil j n by (rule parse_elements_last)
  next
    case (Cons y ys)
    from SerializeJSONArray_Cons [OF xs' [unfolded Cons]] have "ts' \<noteq> []" by auto
    then have j: "join_comma ts = tx @ CHR '','' # join_comma ts'"
      unfolding ts by (cases ts') simp_all
    have l1: "length tx \<le> m" and l2: "length (join_comma ts') < m"
      using 10(6) n s unfolding j by simp_all
    have ne: "xs \<noteq> []" using Cons by simp
    have a: "parse_value m (tx @ CHR '','' # join_comma ts' @ CHR '']'' # rest)
        = Return (x, CHR '','' # join_comma ts' @ CHR '']'' # rest)"
      by (rule 10(1) [OF cx tx l1])
    have b: "parse_elements m (join_comma ts' @ CHR '']'' # rest) = Return (xs, rest)"
      by (rule 10(2) [OF ox cxs ne xs' l2])
    from parse_elements_more [OF a b] show ?thesis
      unfolding j n by simp
  qed
next
  case 11
  then show ?case by simp
next
  case (12 k v kvs)
  from 12(7) obtain m where n: "n = Suc m" by (cases n) auto
  from 12(3) have ck: "\<not> digit_key k" and cv: "json_clean v" and ckvs: "json_clean_props kvs"
    by simp_all
  from SerializeJSONObject_Cons [OF 12(6)] obtain ov ts' where
    ov: "SerializeJSONProperty v = Return ov" and kvs': "SerializeJSONObject kvs = Return ts'"
    and ts: "ts = (case ov of None \<Rightarrow> ts' | Some u \<Rightarrow> (QuoteJSONString k @ CHR '':'' # u) # ts')"
    by blast
  from clean_Some [OF cv ov] obtain tv where otv: "ov = Some tv" by blast
  note tv = ov [unfolded otv]
  have ts: "ts = (QuoteJSONString k @ CHR '':'' # tv) # ts'" using ts otv by simp
  obtain c r where s: "tv = c # r" using ser_start [OF tv] by blast
  have kacc: "k \<notin> fst ` set acc" using 12(5) by auto
  note upd = update_fresh [OF kacc, of v]
  show ?case
  proof (cases kvs)
    case Nil
    with kvs' have "ts' = []" by simp
    then have j: "join_comma ts = QuoteJSONString k @ CHR '':'' # tv" unfolding ts by simp
    have "length tv \<le> m" using 12(7) n unfolding j by simp
    from 12(1) [OF cv tv this, of "CHR ''}'' # rest"]
    have "parse_members (Suc m) acc (QuoteJSONString k @ CHR '':'' # tv @ CHR ''}'' # rest) =
        Return (AList.update k v acc, rest)"
      by (rule parse_members_last [OF _ ck])
    then show ?thesis
      unfolding Nil j n upd by simp
  next
    case (Cons p ps)
    obtain k' v' where p: "p = (k', v')" by (cases p)
    from SerializeJSONObject_Cons [OF kvs' [unfolded Cons p]] obtain ov' ts'' where
      ov': "SerializeJSONProperty v' = Return ov'"
      and ts'': "ts' = (case ov' of None \<Rightarrow> ts'' | Some u \<Rightarrow> (QuoteJSONString k' @ CHR '':'' # u) # ts'')"
      by blast
    from ckvs Cons p have "json_clean v'" by simp
    from clean_Some [OF this ov'] ts'' have "ts' \<noteq> []" by auto
    then have j: "join_comma ts =
        (QuoteJSONString k @ CHR '':'' # tv) @ CHR '','' # join_comma ts'"
      unfolding ts by (cases ts') simp_all
    have l1: "length tv \<le> m" and l2: "length (join_comma ts') < m"
      using 12(7) n s unfolding j by simp_all
    have ne: "kvs \<noteq> []" using Cons by simp
    have d: "distinct (map fst (acc @ [(k, v)]) @ map fst kvs)"
      using 12(5) by simp
    have a: "parse_value m (tv @ CHR '','' # join_comma ts' @ CHR ''}'' # rest)
        = Return (v, CHR '','' # join_comma ts' @ CHR ''}'' # rest)"
      by (rule 12(1) [OF cv tv l1])
    have b: "parse_members m (AList.update k v acc) (join_comma ts' @ CHR ''}'' # rest)
        = Return ((acc @ [(k, v)]) @ kvs, rest)"
      unfolding upd by (rule 12(2) [OF ov ckvs ne d kvs' l2])
    from parse_members_more [OF a ck b] show ?thesis
      unfolding j n by simp
  qed
qed

lemma JSON_round_trip:
  assumes "json_clean v"
  shows "\<exists>t. JSON_stringify v = Return (Some t) \<and> t \<noteq> [] \<and> JSON_parse t = Return v"
proof -
  obtain t where t: "SerializeJSONProperty v = Return (Some t)"
    using serializes(1) [OF assms] by blast
  obtain c r where c: "t = c # r"
    using ser_start [OF t] by blast
  have "parse_value (2 * length t + 2) (t @ []) = Return (v, [])"
    by (rule roundtrip(1) [OF assms t]) simp
  then have "JSON_parse t = Return v"
    by (simp add: JSON_parse_def skip_ws_def)
  with t c show ?thesis
    by (simp add: JSON_stringify_def)
qed

lemma setUser_Return:
  assumes "JSON_stringify user = Return t"
  shows "setUser user s =
     (Return (),
      s\<lparr>localStorage := (localStorage s)(STORAGE_KEY \<mapsto> stored_text user),
        effects := effects s @ [SetItem STORAGE_KEY (stored_text user)]\<rparr>)"
  using assms by (simp add: setUser_def localStorage_setItem_def log_def stored_text_def)

lemma setUser_Throw: "JSON_stringify user = Throw e \<Longrightarrow> setUser user s = (Throw e, s)"
  by (simp add: setUser_def)

lemma stored_text_Return:
  "JSON_stringify user = Return t \<Longrightarrow>
     stored_text user = (case t of None \<Rightarrow> ''undefined'' | Some x \<Rightarrow> x)"
  by (simp add: stored_text_def)

lemma getUser_setUser:
  assumes "json_clean u"
  shows "fst (setUser u s) = Return () \<and> getUser (snd (setUser u s)) = Return u"
proof -
  obtain t where "JSON_stringify u = Return (Some t)" "t \<noteq> []" "JSON_parse t = Return u"
    using JSON_round_trip [OF assms] by blast
  then show ?thesis
    by (simp add: getUser_def setUser_def localStorage_setItem_def log_def)
qed

lemma wf_UserRecord_clean: "wf_UserRecord u \<Longrightarrow> json_clean u"
  by (cases u) simp_all

lemma example_session:
  "stored_text example_user \<noteq> [] \<and> JSON_parse (stored_text example_user) = Return example_user"
  using JSON_round_trip [of example_user]
  by (auto simp: stored_text_def example_user_def digit_key_def is_digit_def)

lemma example_user_stringify: "JSON_stringify example_user = Return (Some example_user_text)"
  by (simp add: JSON_stringify_def example_user_def example_user_text_def QuoteJSONString_def
      quote_char_def)

lemma bigint_user_stringify: "JSON_stringify bigint_user = Throw TypeError"
  by (simp add: JSON_stringify_def bigint_user_def)

subsection \<open>Messages that are not a handshake\<close>

text \<open>
  Claim C5. A message whose payload does not have the property \<open>type\<close> equal to the
  string \<open>GUAHH_AUTH_SUCCESS\<close> (a payload that is \<open>undefined\<close>, \<open>null\<close>, a boolean, a
  string or an array among them) leaves the whole page as it was, in one listener and
  in all of them: the stored session, both callback lists, the popup handle and the log
  of effects (no callback is called, nothing is reported). The listener returns
  normally.
\<close>

theorem ignored_message:
  assumes "js_get (data event) ''type'' \<noteq> Return (JStr ''GUAHH_AUTH_SUCCESS'')"
  shows "message_listener event s = (Return (), s) \<and> deliver_message event s = s"
proof -
  have m: "message_listener event s = (Return (), s)" for s
    using assms by (simp add: message_listener_def)
  then have "dispatch event s = s" for s
    by (simp add: dispatch_def)
  with m show ?thesis
    by (simp add: deliver_message_def funpow_fixed)
qed

theorem ignored_message_witness:
  "js_get (JObj [(''type'', JStr ''OTHER'')]) ''type'' \<noteq> Return (JStr ''GUAHH_AUTH_SUCCESS'')
   \<and> fst (message_listener
        \<lparr>data = JObj [(''type'', JStr ''OTHER'')], origin = ''https://a.test'', source = Some 3\<rparr>
        ((fresh_page [STORAGE_KEY \<mapsto> ''null''])
           \<lparr>callbacks_login := [Fn 1], authPopup := Some 3, message_listeners := 2\<rparr>)) = Return ()
   \<and> deliver_message \<lparr>data = JObj [(''type'', JStr ''OTHER'')], origin = ''https://a.test'', source = Some 3\<rparr>
        ((fresh_page [STORAGE_KEY \<mapsto> ''null''])
           \<lparr>callbacks_login := [Fn 1], authPopup := Some 3, message_listeners := 2\<rparr>)
     = (fresh_page [STORAGE_KEY \<mapsto> ''null''])
           \<lparr>callbacks_login := [Fn 1], authPopup := Some 3, message_listeners := 2\<rparr>"
  using ignored_message
    [of "\<lparr>data = JObj [(''type'', JStr ''OTHER'')], origin = ''https://a.test'', source = Some 3\<rparr>"
        "(fresh_page [STORAGE_KEY \<mapsto> ''null''])
           \<lparr>callbacks_login := [Fn 1], authPopup := Some 3, message_listeners := 2\<rparr>"]
  by simp

subsection \<open>The handshake\<close>

lemma success_fields:
  assumes "js_get d ''type'' = Return (JStr ''GUAHH_AUTH_SUCCESS'')"
  shows "\<exists>user service. js_get d ''user'' = Return user \<and> js_get d ''service'' = Return service"
  using assms by (cases d) auto

lemma message_listener_success:
  assumes "js_get (data event) ''type'' = Return (JStr ''GUAHH_AUTH_SUCCESS'')"
    and "js_get (data event) ''user'' = Return user"
    and "js_get (data event) ''service'' = Return service"
    and "JSON_stringify user = Return t"
  shows "message_listener event s =
     (Return (),
      s\<lparr>localStorage := (localStorage s)(STORAGE_KEY \<mapsto> stored_text user),
        authPopup := None,
        closed_windows := (case authPopup s of Some w \<Rightarrow> insert w (closed_windows s) | None \<Rightarrow> closed_windows s),
        effects := effects s @ SetItem STORAGE_KEY (stored_text user) # calls (callbacks_login s) [user, service]
                     @ (case authPopup s of Some w \<Rightarrow> [Close w] | None \<Rightarrow> [])\<rparr>)"
proof -
  have "js_truthy (data event)"
    using assms(1) by (rule js_get_string_truthy)
  then show ?thesis
    using assms(1-3)
    by (simp add: message_listener_def setUser_Return [OF assms(4)] forEach_log log_def
        window_close_def calls_def split: option.splits)
qed

lemma message_listener_throws:
  assumes "js_get (data event) ''type'' = Return (JStr ''GUAHH_AUTH_SUCCESS'')"
    and "js_get (data event) ''user'' = Return user"
    and "JSON_stringify user = Throw e"
  shows "message_listener event s = (Throw e, s)"
proof -
  have "js_truthy (data event)"
    using assms(1) by (rule js_get_string_truthy)
  moreover obtain service where "js_get (data event) ''service'' = Return service"
    using success_fields [OF assms(1)] by blast
  ultimately show ?thesis
    using assms by (simp add: message_listener_def setUser_Throw)
qed

lemma dispatch_success:
  assumes "js_get (data event) ''type'' = Return (JStr ''GUAHH_AUTH_SUCCESS'')"
    and "js_get (data event) ''user'' = Return user"
    and "js_get (data event) ''service'' = Return service"
    and "JSON_stringify user = Return t"
  shows "dispatch event s =
     s\<lparr>localStorage := (localStorage s)(STORAGE_KEY \<mapsto> stored_text user),
       authPopup := None,
       closed_windows := (case authPopup s of Some w \<Rightarrow> insert w (closed_windows s) | None \<Rightarrow> closed_windows s),
       effects := effects s @ SetItem STORAGE_KEY (stored_text user) # calls (callbacks_login s) [user, service]
                    @ (case authPopup s of Some w \<Rightarrow> [Close w] | None \<Rightarrow> [])\<rparr>"
  unfolding dispatch_def message_listener_success [OF assms] by simp

lemma dispatch_throws:
  assumes "js_get (data event) ''type'' = Return (JStr ''GUAHH_AUTH_SUCCESS'')"
    and "js_get (data event) ''user'' = Return user"
    and "JSON_stringify user = Throw e"
  shows "dispatch event s = log [Uncaught e] s"
  unfolding dispatch_def message_listener_throws [OF assms] by simp



subsection \<open>A user that \<open>JSON.stringify\<close> does not serialize\<close>


subsection \<open>\<open>authPageUrl\<close>\<close>

text \<open>
  Claim C8. \<open>init\<close> gives the same result and the same page for any two option records,
  so everything that happens afterwards is the same too. The URL that \<open>show\<close> opens is
  the constant \<open>guahh-auth-page.html\<close>, a question mark and the two query parameters.
\<close>

theorem authPageUrl_unused:
  "init options s = init options' s
   \<and> run acts (snd (init options s)) = run acts (snd (init options' s))
   \<and> (\<exists>features rest.
        effects (show_popup serviceInfo b s) =
          effects s @
            WindowOpen (''guahh-auth-page.html'' @ ''?'' @
                URLSearchParams_toString
                  [(''service'', or_else (name serviceInfo) (or_else (Some (document_title b)) ''this service'')),
                   (''url'', or_else (url serviceInfo) (location_origin b))])
              ''GuahhAuth'' features # rest)"
proof -
  have 1: "init options s = init options' s"
    by (simp add: init_def Let_def)
  have "\<exists>features rest.
        effects (show_popup serviceInfo b s) =
          effects s @
            WindowOpen (''guahh-auth-page.html'' @ ''?'' @
                URLSearchParams_toString
                  [(''service'', or_else (name serviceInfo) (or_else (Some (document_title b)) ''this service'')),
                   (''url'', or_else (url serviceInfo) (location_origin b))])
              ''GuahhAuth'' features # rest"
    by (cases "window_open_result b") (simp_all add: show_popup_def Let_def log_def AUTH_PAGE_URL_def)
  with 1 show ?thesis by simp
qed

subsection \<open>The replay of a cached session\<close>

lemma init_session:
  assumes "localStorage s STORAGE_KEY = Some storedUser" and "storedUser \<noteq> []"
    and "JSON_parse storedUser = Return user"
  shows "init options s =
    (Return (),
     s\<lparr>message_listeners := Suc (message_listeners s),
       effects := effects s @ AddMessageListener #
          calls (callbacks_login s) [user, JObj [(''serviceName'', JStr ''Cached Session'')]]\<rparr>)"
  using assms by (simp add: init_def Let_def log_def forEach_log calls_def)

lemma fold_onLogin:
  "fold (\<lambda>cb. onLogin (Function cb)) cbs s = s\<lparr>callbacks_login := callbacks_login s @ cbs\<rparr>"
  by (induction cbs arbitrary: s) (simp_all add: onLogin_def)

text \<open>
  Claim C2. Let a session be stored when the page starts. The callbacks registered
  before \<open>init\<close> is called (the list \<open>before\<close>, after those the page already had)
  are each called once by \<open>init\<close>, in registration order, with the cached user and
  \<open>{serviceName: "Cached Session"}\<close>. Registering the callbacks \<open>after\<close> once \<open>init\<close>
  has returned adds them to the list and calls nothing: the log stays as \<open>init\<close> left it.
\<close>

theorem cached_session_replay:
  assumes "localStorage s STORAGE_KEY = Some storedUser" and "storedUser \<noteq> []"
    and "JSON_parse storedUser = Return cachedUser"
  shows "init options (fold (\<lambda>cb. onLogin (Function cb)) before s) =
           (Return (),
            s\<lparr>callbacks_login := callbacks_login s @ before,
              message_listeners := Suc (message_listeners s),
              effects := effects s @ AddMessageListener #
                map (\<lambda>cb. Call (callee cb) [cachedUser, JObj [(''serviceName'', JStr ''Cached Session'')]])
                  (callbacks_login s @ before)\<rparr>)
     \<and> fold (\<lambda>cb. onLogin (Function cb)) after
         (snd (init options (fold (\<lambda>cb. onLogin (Function cb)) before s))) =
            s\<lparr>callbacks_login := callbacks_login s @ before @ after,
              message_listeners := Suc (message_listeners s),
              effects := effects s @ AddMessageListener #
                map (\<lambda>cb. Call (callee cb) [cachedUser, JObj [(''serviceName'', JStr ''Cached Session'')]])
                  (callbacks_login s @ before)\<rparr>"
proof -
  let ?s = "fold (\<lambda>cb. onLogin (Function cb)) before s"
  have s: "?s = s\<lparr>callbacks_login := callbacks_login s @ before\<rparr>"
    by (rule fold_onLogin)
  have "localStorage ?s STORAGE_KEY = Some storedUser"
    using assms(1) by (simp add: s)
  from init_session [OF this assms(2,3)]
  have i: "init options ?s = (Return (),
            s\<lparr>callbacks_login := callbacks_login s @ before,
              message_listeners := Suc (message_listeners s),
              effects := effects s @ AddMessageListener #
                map (\<lambda>cb. Call (callee cb) [cachedUser, JObj [(''serviceName'', JStr ''Cached Session'')]])
                  (callbacks_login s @ before)\<rparr>)"
    by (simp add: s calls_def)
  show ?thesis
    unfolding i by (simp add: fold_onLogin)
qed

theorem cached_session_replay_witness:
  "localStorage (fresh_page [STORAGE_KEY \<mapsto> stored_text example_user]) STORAGE_KEY
     = Some (stored_text example_user)
   \<and> stored_text example_user \<noteq> []
   \<and> JSON_parse (stored_text example_user) = Return example_user
   \<and> fold (\<lambda>cb. onLogin (Function cb)) [Fn 3]
        (snd (init \<lparr>authPageUrl = None\<rparr>
           (fold (\<lambda>cb. onLogin (Function cb)) [Fn 1, Fn 2]
              (fresh_page [STORAGE_KEY \<mapsto> stored_text example_user]))))
       = (fresh_page [STORAGE_KEY \<mapsto> stored_text example_user])
           \<lparr>callbacks_login := [Fn 1, Fn 2, Fn 3],
            message_listeners := 1,
            effects :=
              [AddMessageListener,
               Call 1 [example_user, JObj [(''serviceName'', JStr ''Cached Session'')]],
               Call 2 [example_user, JObj [(''serviceName'', JStr ''Cached Session'')]]]\<rparr>"
proof -
  let ?p = "fresh_page [STORAGE_KEY \<mapsto> stored_text example_user]"
  have l: "localStorage ?p STORAGE_KEY = Some (stored_text example_user)"
    by (simp add: fresh_page_def)
  note s = example_session
  note t = cached_session_replay [OF l s [THEN conjunct1] s [THEN conjunct2],
      of "\<lparr>authPageUrl = None\<rparr>" "[Fn 1, Fn 2]" "[Fn 3]", THEN conjunct2]
  show ?thesis
    unfolding t using l s by (simp add: fresh_page_def)
qed

subsection \<open>Frames of the operations\<close>

lemma init_listeners: "message_listeners (snd (init options s)) = Suc (message_listeners s)"
  by (simp add: init_def Let_def log_def forEach_log split: option.splits outcome.splits)

lemma init_frame:
  "localStorage (snd (init options s)) = localStorage s"
  "callbacks_login (snd (init options s)) = callbacks_login s"
  "callbacks_logout (snd (init options s)) = callbacks_logout s"
  "authPopup (snd (init options s)) = authPopup s"
  "intervals (snd (init options s)) = intervals s"
  "closed_windows (snd (init options s)) = closed_windows s"
  by (simp_all add: init_def Let_def log_def forEach_log split: option.splits outcome.splits)

lemma logout_frame:
  "authPopup (snd (logout s)) = authPopup s"
  "callbacks_login (snd (logout s)) = callbacks_login s"
  "callbacks_logout (snd (logout s)) = callbacks_logout s"
  "message_listeners (snd (logout s)) = message_listeners s"
  "closed_windows (snd (logout s)) = closed_windows s"
  by (simp_all add: logout_def Let_def log_def forEach_log localStorage_removeItem_def
      split: outcome.splits)

lemma onLogin_frame:
  "authPopup (onLogin cb s) = authPopup s" "effects (onLogin cb s) = effects s"
  "callbacks_logout (onLogin cb s) = callbacks_logout s"
  "localStorage (onLogin cb s) = localStorage s"
  "message_listeners (onLogin cb s) = message_listeners s"
  "closed_windows (onLogin cb s) = closed_windows s"
  by (simp_all add: onLogin_def split: jsarg.splits)

lemma onLogout_frame:
  "authPopup (onLogout cb s) = authPopup s" "effects (onLogout cb s) = effects s"
  "callbacks_login (onLogout cb s) = callbacks_login s"
  "localStorage (onLogout cb s) = localStorage s"
  "message_listeners (onLogout cb s) = message_listeners s"
  "closed_windows (onLogout cb s) = closed_windows s"
  by (simp_all add: onLogout_def split: jsarg.splits)

lemma run_Nil: "run [] s = s"
  by (simp add: run_def)

lemma run_Cons: "run (a # as) s = run as (step a s)"
  by (simp add: run_def)

lemma run_append: "run (as @ bs) s = run bs (run as s)"
  by (simp add: run_def)

subsection \<open>Calling \<open>init\<close> more than once\<close>

lemma run_inits_listeners:
  "message_listeners (run (map Init optss) s) = message_listeners s + length optss"
  by (induction optss arbitrary: s) (simp_all add: run_Nil run_Cons init_listeners)

lemma run_inits_frame:
  "callbacks_login (run (map Init optss) s) = callbacks_login s"
  "authPopup (run (map Init optss) s) = authPopup s"
  "localStorage (run (map Init optss) s) = localStorage s"
  "closed_windows (run (map Init optss) s) = closed_windows s"
  by (induction optss arbitrary: s) (simp_all add: run_Nil run_Cons init_frame)

lemma run_inits_effects:
  assumes "localStorage s STORAGE_KEY = Some storedUser" and "storedUser \<noteq> []"
    and "JSON_parse storedUser = Return user"
  shows "effects (run (map Init optss) s) =
     effects s @ concat (replicate (length optss)
        (AddMessageListener # calls (callbacks_login s) [user, JObj [(''serviceName'', JStr ''Cached Session'')]]))"
  using assms(1)
proof (induction optss arbitrary: s)
  case Nil
  show ?case by (simp add: run_Nil)
next
  case (Cons options optss)
  have st: "localStorage (snd (init options s)) STORAGE_KEY = Some storedUser"
    using Cons.prems by (simp add: init_frame)
  show ?case
    by (simp add: run_Cons Cons.IH [OF st] init_frame)
       (simp add: init_session [OF Cons.prems assms(2,3)])
qed

lemma listeners_success:
  assumes "js_get (data event) ''type'' = Return (JStr ''GUAHH_AUTH_SUCCESS'')"
    and "js_get (data event) ''user'' = Return user"
    and "js_get (data event) ''service'' = Return service"
    and "JSON_stringify user = Return t"
  shows "(dispatch event ^^ Suc k) s =
     s\<lparr>localStorage := (localStorage s)(STORAGE_KEY \<mapsto> stored_text user),
       authPopup := None,
       closed_windows := (case authPopup s of Some w \<Rightarrow> insert w (closed_windows s) | None \<Rightarrow> closed_windows s),
       effects := effects s @ SetItem STORAGE_KEY (stored_text user) # calls (callbacks_login s) [user, service]
                    @ (case authPopup s of Some w \<Rightarrow> [Close w] | None \<Rightarrow> [])
                    @ concat (replicate k (SetItem STORAGE_KEY (stored_text user) # calls (callbacks_login s) [user, service]))\<rparr>"
proof (induction k)
  case 0
  have "(dispatch event ^^ Suc 0) s = dispatch event s"
    by simp
  then have e: "(dispatch event ^^ Suc 0) s =
     s\<lparr>localStorage := (localStorage s)(STORAGE_KEY \<mapsto> stored_text user),
       authPopup := None,
       closed_windows := (case authPopup s of Some w \<Rightarrow> insert w (closed_windows s) | None \<Rightarrow> closed_windows s),
       effects := effects s @ SetItem STORAGE_KEY (stored_text user) # calls (callbacks_login s) [user, service]
                    @ (case authPopup s of Some w \<Rightarrow> [Close w] | None \<Rightarrow> [])\<rparr>"
    using dispatch_success [OF assms, of s] by (simp only:)
  show ?case
    unfolding e by (intro page.equality) (simp_all add: fun_eq_iff)
next
  case (Suc k)
  define s' where "s' = (dispatch event ^^ Suc k) s"
  define round where
    "round = SetItem STORAGE_KEY (stored_text user) # calls (callbacks_login s) [user, service]"
  have s': "s' = s\<lparr>localStorage := (localStorage s)(STORAGE_KEY \<mapsto> stored_text user),
       authPopup := None,
       closed_windows := (case authPopup s of Some w \<Rightarrow> insert w (closed_windows s) | None \<Rightarrow> closed_windows s),
       effects := effects s @ round
                    @ (case authPopup s of Some w \<Rightarrow> [Close w] | None \<Rightarrow> [])
                    @ concat (replicate k round)\<rparr>"
    unfolding s'_def round_def using Suc.IH
    by (intro page.equality) (simp_all add: fun_eq_iff)
  have r: "concat (replicate k round) @ round = concat (replicate (Suc k) round)"
    by (induction k) simp_all
  have "(dispatch event ^^ Suc (Suc k)) s = dispatch event s'"
    by (simp add: s'_def)
  also have "\<dots> = s'\<lparr>localStorage := (localStorage s')(STORAGE_KEY \<mapsto> stored_text user),
       authPopup := None,
       closed_windows := (case authPopup s' of Some w \<Rightarrow> insert w (closed_windows s') | None \<Rightarrow> closed_windows s'),
       effects := effects s' @ SetItem STORAGE_KEY (stored_text user) # calls (callbacks_login s') [user, service]
                    @ (case authPopup s' of Some w \<Rightarrow> [Close w] | None \<Rightarrow> [])\<rparr>"
    by (rule dispatch_success [OF assms])
  also have "\<dots> = s\<lparr>localStorage := (localStorage s)(STORAGE_KEY \<mapsto> stored_text user),
       authPopup := None,
       closed_windows := (case authPopup s of Some w \<Rightarrow> insert w (closed_windows s) | None \<Rightarrow> closed_windows s),
       effects := effects s @ round
                    @ (case authPopup s of Some w \<Rightarrow> [Close w] | None \<Rightarrow> [])
                    @ concat (replicate (Suc k) round)\<rparr>"
    unfolding r [symmetric] by (intro page.equality) (simp_all add: s' round_def fun_eq_iff)
  finally show ?case
    unfolding round_def by (intro page.equality) (simp_all add: fun_eq_iff)
qed

lemma listeners_throw:
  assumes "js_get (data event) ''type'' = Return (JStr ''GUAHH_AUTH_SUCCESS'')"
    and "js_get (data event) ''user'' = Return user"
    and "JSON_stringify user = Throw e"
  shows "(dispatch event ^^ k) s = log (replicate k (Uncaught e)) s"
proof (induction k)
  case 0
  show ?case by (simp add: log_Nil)
next
  case (Suc k)
  have "(dispatch event ^^ Suc k) s = dispatch event ((dispatch event ^^ k) s)"
    by simp
  also have "\<dots> = log [Uncaught e] ((dispatch event ^^ k) s)"
    by (rule dispatch_throws [OF assms])
  also have "\<dots> = log (replicate k (Uncaught e) @ [Uncaught e]) s"
    unfolding Suc.IH by (rule log_log)
  finally show ?case
    by (simp only: replicate_append_same replicate.simps)
qed

text \<open>
  Claim C9. Every call of \<open>init\<close> adds a message listener, whatever the page holds, so
  after the calls \<open>optss\<close> the page has that many more. With a session stored, each call
  replays it to the login callbacks registered at that moment. When the page then has
  \<open>Suc k\<close> listeners, one handshake message (with a \<open>user\<close> that \<open>JSON.stringify\<close>
  serializes) is handled \<open>Suc k\<close> times: each time the user is stored and every login
  callback is called; the popup is closed the first time only. Afterwards the store holds
  the user's text, the handle is \<open>null\<close>, and nothing else has changed. (On a \<open>user\<close>
  that \<open>JSON.stringify\<close> does not serialize, each of the listeners throws, and the page
  gains the reports of the exceptions only.)
\<close>

theorem init_not_once_only:
  "message_listeners (snd (init options s)) = Suc (message_listeners s)
   \<and> message_listeners (run (map Init optss) s) = message_listeners s + length optss
   \<and> (\<forall>storedUser cachedUser.
         localStorage s STORAGE_KEY = Some storedUser \<and> storedUser \<noteq> []
         \<and> JSON_parse storedUser = Return cachedUser \<longrightarrow>
           init options s =
             (Return (),
              s\<lparr>message_listeners := Suc (message_listeners s),
                effects := effects s @ AddMessageListener #
                  map (\<lambda>cb. Call (callee cb) [cachedUser, JObj [(''serviceName'', JStr ''Cached Session'')]])
                    (callbacks_login s)\<rparr>)
           \<and> effects (run (map Init optss) s) =
               effects s @ concat (replicate (length optss)
                 (AddMessageListener #
                  map (\<lambda>cb. Call (callee cb) [cachedUser, JObj [(''serviceName'', JStr ''Cached Session'')]])
                    (callbacks_login s))))
   \<and> (\<forall>user service t k.
         js_get (data event) ''type'' = Return (JStr ''GUAHH_AUTH_SUCCESS'')
         \<and> js_get (data event) ''user'' = Return user
         \<and> js_get (data event) ''service'' = Return service
         \<and> JSON_stringify user = Return t
         \<and> message_listeners s + length optss = Suc k \<longrightarrow>
           deliver_message event (run (map Init optss) s) =
             (run (map Init optss) s)
               \<lparr>localStorage :=
                  (localStorage s)(STORAGE_KEY \<mapsto> (case t of None \<Rightarrow> ''undefined'' | Some x \<Rightarrow> x)),
                authPopup := None,
                closed_windows :=
                  (case authPopup s of Some w \<Rightarrow> insert w (closed_windows s) | None \<Rightarrow> closed_windows s),
                effects :=
                  effects (run (map Init optss) s)
                  @ SetItem STORAGE_KEY (case t of None \<Rightarrow> ''undefined'' | Some x \<Rightarrow> x)
                    # map (\<lambda>cb. Call (callee cb) [user, service]) (callbacks_login s)
                  @ (case authPopup s of Some w \<Rightarrow> [Close w] | None \<Rightarrow> [])
                  @ concat (replicate k
                      (SetItem STORAGE_KEY (case t of None \<Rightarrow> ''undefined'' | Some x \<Rightarrow> x)
                       # map (\<lambda>cb. Call (callee cb) [user, service]) (callbacks_login s)))\<rparr>)
   \<and> (\<forall>user e.
         js_get (data event) ''type'' = Return (JStr ''GUAHH_AUTH_SUCCESS'')
         \<and> js_get (data event) ''user'' = Return user
         \<and> JSON_stringify user = Throw e \<longrightarrow>
           deliver_message event (run (map Init optss) s) =
             (run (map Init optss) s)
               \<lparr>effects := effects (run (map Init optss) s)
                  @ replicate (message_listeners s + length optss) (Uncaught e)\<rparr>)"
proof -
  let ?t = "run (map Init optss) s"
  have 3: "init options s =
             (Return (),
              s\<lparr>message_listeners := Suc (message_listeners s),
                effects := effects s @ AddMessageListener #
                  map (\<lambda>cb. Call (callee cb) [cachedUser, JObj [(''serviceName'', JStr ''Cached Session'')]])
                    (callbacks_login s)\<rparr>)
           \<and> effects ?t =
               effects s @ concat (replicate (length optss)
                 (AddMessageListener #
                  map (\<lambda>cb. Call (callee cb) [cachedUser, JObj [(''serviceName'', JStr ''Cached Session'')]])
                    (callbacks_login s)))"
    if "localStorage s STORAGE_KEY = Some storedUser" and "storedUser \<noteq> []"
      and "JSON_parse storedUser = Return cachedUser" for storedUser cachedUser
    using init_session [OF that, of options] run_inits_effects [OF that, of optss]
    by (simp add: calls_def)
  have 4: "deliver_message event ?t =
             ?t\<lparr>localStorage :=
                  (localStorage s)(STORAGE_KEY \<mapsto> (case t of None \<Rightarrow> ''undefined'' | Some x \<Rightarrow> x)),
                authPopup := None,
                closed_windows :=
                  (case authPopup s of Some w \<Rightarrow> insert w (closed_windows s) | None \<Rightarrow> closed_windows s),
                effects :=
                  effects ?t
                  @ SetItem STORAGE_KEY (case t of None \<Rightarrow> ''undefined'' | Some x \<Rightarrow> x)
                    # map (\<lambda>cb. Call (callee cb) [user, service]) (callbacks_login s)
                  @ (case authPopup s of Some w \<Rightarrow> [Close w] | None \<Rightarrow> [])
                  @ concat (replicate k
                      (SetItem STORAGE_KEY (case t of None \<Rightarrow> ''undefined'' | Some x \<Rightarrow> x)
                       # map (\<lambda>cb. Call (callee cb) [user, service]) (callbacks_login s)))\<rparr>"
    if e: "js_get (data event) ''type'' = Return (JStr ''GUAHH_AUTH_SUCCESS'')"
      "js_get (data event) ''user'' = Return user"
      "js_get (data event) ''service'' = Return service"
      "JSON_stringify user = Return t"
      and k: "message_listeners s + length optss = Suc k" for user service t k
  proof -
    have "message_listeners ?t = Suc k"
      using k by (simp add: run_inits_listeners)
    then have "deliver_message event ?t = (dispatch event ^^ Suc k) ?t"
      by (simp only: deliver_message_def)
    then show ?thesis
      by (simp only: listeners_success [OF e] run_inits_frame calls_def
          stored_text_Return [OF e(4)])
  qed
  have 5: "deliver_message event ?t =
             ?t\<lparr>effects := effects ?t @ replicate (message_listeners s + length optss) (Uncaught e)\<rparr>"
    if e: "js_get (data event) ''type'' = Return (JStr ''GUAHH_AUTH_SUCCESS'')"
      "js_get (data event) ''user'' = Return user"
      "JSON_stringify user = Throw e" for user e
    by (simp only: deliver_message_def listeners_throw [OF e] run_inits_listeners log_def)
  from 3 4 5 show ?thesis
    by (simp add: init_listeners run_inits_listeners)
qed

theorem init_not_once_only_witness:
  "js_get (data example_event) ''type'' = Return (JStr ''GUAHH_AUTH_SUCCESS'')
   \<and> js_get (data example_event) ''user'' = Return example_user
   \<and> js_get (data example_event) ''service'' = Return (JObj [(''name'', JStr ''Acme'')])
   \<and> JSON_stringify example_user = Return (Some example_user_text)
   \<and> localStorage
        (example_page\<lparr>localStorage := [STORAGE_KEY \<mapsto> stored_text example_user], message_listeners := 0\<rparr>)
        STORAGE_KEY = Some (stored_text example_user)
   \<and> stored_text example_user \<noteq> []
   \<and> JSON_parse (stored_text example_user) = Return example_user
   \<and> message_listeners
        (run [Init \<lparr>authPageUrl = None\<rparr>, Init \<lparr>authPageUrl = Some ''x.html''\<rparr>]
           (example_page\<lparr>localStorage := [STORAGE_KEY \<mapsto> stored_text example_user], message_listeners := 0\<rparr>))
       = 2
   \<and> localStorage
        (deliver_message example_event
           (run [Init \<lparr>authPageUrl = None\<rparr>, Init \<lparr>authPageUrl = Some ''x.html''\<rparr>]
              (example_page\<lparr>localStorage := [STORAGE_KEY \<mapsto> stored_text example_user], message_listeners := 0\<rparr>)))
        ''guahh_user'' = Some example_user_text
   \<and> authPopup
        (deliver_message example_event
           (run [Init \<lparr>authPageUrl = None\<rparr>, Init \<lparr>authPageUrl = Some ''x.html''\<rparr>]
              (example_page\<lparr>localStorage := [STORAGE_KEY \<mapsto> stored_text example_user], message_listeners := 0\<rparr>)))
       = None
   \<and> effects
        (deliver_message example_event
           (run [Init \<lparr>authPageUrl = None\<rparr>, Init \<lparr>authPageUrl = Some ''x.html''\<rparr>]
              (example_page\<lparr>localStorage := [STORAGE_KEY \<mapsto> stored_text example_user], message_listeners := 0\<rparr>))) =
       [AddMessageListener,
        Call 1 [example_user, JObj [(''serviceName'', JStr ''Cached Session'')]],
        Call 2 [example_user, JObj [(''serviceName'', JStr ''Cached Session'')]],
        AddMessageListener,
        Call 1 [example_user, JObj [(''serviceName'', JStr ''Cached Session'')]],
        Call 2 [example_user, JObj [(''serviceName'', JStr ''Cached Session'')]],
        SetItem ''guahh_user'' example_user_text,
        Call 1 [example_user, JObj [(''name'', JStr ''Acme'')]],
        Call 2 [example_user, JObj [(''name'', JStr ''Acme'')]],
        Close 7,
        SetItem ''guahh_user'' example_user_text,
        Call 1 [example_user, JObj [(''name'', JStr ''Acme'')]],
        Call 2 [example_user, JObj [(''name'', JStr ''Acme'')]]]
   \<and> js_get (data bigint_event) ''type'' = Return (JStr ''GUAHH_AUTH_SUCCESS'')
   \<and> js_get (data bigint_event) ''user'' = Return bigint_user
   \<and> JSON_stringify bigint_user = Throw TypeError
   \<and> deliver_message bigint_event
        (run [Init \<lparr>authPageUrl = None\<rparr>, Init \<lparr>authPageUrl = Some ''x.html''\<rparr>]
           (example_page\<lparr>localStorage := [STORAGE_KEY \<mapsto> stored_text example_user], message_listeners := 0\<rparr>)) =
       (run [Init \<lparr>authPageUrl = None\<rparr>, Init \<lparr>authPageUrl = Some ''x.html''\<rparr>]
           (example_page\<lparr>localStorage := [STORAGE_KEY \<mapsto> stored_text example_user], message_listeners := 0\<rparr>))
         \<lparr>effects :=
            [AddMessageListener,
             Call 1 [example_user, JObj [(''serviceName'', JStr ''Cached Session'')]],
             Call 2 [example_user, JObj [(''serviceName'', JStr ''Cached Session'')]],
             AddMessageListener,
             Call 1 [example_user, JObj [(''serviceName'', JStr ''Cached Session'')]],
             Call 2 [example_user, JObj [(''serviceName'', JStr ''Cached Session'')]],
             Uncaught TypeError, Uncaught TypeError]\<rparr>"
proof -
  let ?s = "example_page\<lparr>localStorage := [STORAGE_KEY \<mapsto> stored_text example_user], message_listeners := 0\<rparr>"
  let ?optss = "[\<lparr>authPageUrl = None\<rparr>, \<lparr>authPageUrl = Some ''x.html''\<rparr>]"
  have e: "js_get (data example_event) ''type'' = Return (JStr ''GUAHH_AUTH_SUCCESS'')
      \<and> js_get (data example_event) ''user'' = Return example_user
      \<and> js_get (data example_event) ''service'' = Return (JObj [(''name'', JStr ''Acme'')])
      \<and> JSON_stringify example_user = Return (Some example_user_text)
      \<and> message_listeners ?s + length ?optss = Suc (Suc 0)"
    by (simp add: example_event_def example_user_stringify)
  have l: "localStorage ?s STORAGE_KEY = Some (stored_text example_user)
      \<and> stored_text example_user \<noteq> []
      \<and> JSON_parse (stored_text example_user) = Return example_user"
    using example_session by simp
  note t = init_not_once_only [of "\<lparr>authPageUrl = None\<rparr>" ?s ?optss example_event]
  note t2 = t [THEN conjunct2, THEN conjunct1]
  note t3 = t [THEN conjunct2, THEN conjunct2, THEN conjunct1, rule_format, OF l, THEN conjunct2]
  note t4 = t [THEN conjunct2, THEN conjunct2, THEN conjunct2, THEN conjunct1, rule_format, OF e]
  have m: "map Init ?optss = [Init \<lparr>authPageUrl = None\<rparr>, Init \<lparr>authPageUrl = Some ''x.html''\<rparr>]"
    by simp
  have b: "js_get (data bigint_event) ''type'' = Return (JStr ''GUAHH_AUTH_SUCCESS'')
      \<and> js_get (data bigint_event) ''user'' = Return bigint_user
      \<and> JSON_stringify bigint_user = Throw TypeError"
    by (simp add: bigint_event_def bigint_user_stringify)
  note u = init_not_once_only [of "\<lparr>authPageUrl = None\<rparr>" ?s ?optss bigint_event]
  note u5 = u [THEN conjunct2, THEN conjunct2, THEN conjunct2, THEN conjunct2, rule_format, OF b]
  have n: "replicate (message_listeners ?s + length ?optss) (Uncaught TypeError)
      = [Uncaught TypeError, Uncaught TypeError]"
    by (simp add: numeral_2_eq_2)
  show ?thesis
    using e l b t2 t3 unfolding t4 [unfolded m] u5 [unfolded m n] m
    by (simp add: example_page_def STORAGE_KEY_def)
qed

subsection \<open>The end of a popup\<close>

lemma terminations_append: "terminations (es @ fs) = terminations es @ terminations fs"
  by (simp add: terminations_def)

lemma terminations_Nil: "terminations [] = []"
  by (simp add: terminations_def)

lemma terminations_Cons:
  "terminations (e # es) = (if is_termination e then e # terminations es else terminations es)"
  by (simp add: terminations_def)

lemma terminations_calls: "terminations (calls cbs args) = []"
  by (induction cbs) (simp_all add: terminations_def calls_def)

lemma terminations_map_Call: "terminations (map (\<lambda>cb. Call (callee cb) args) cbs) = []"
  using terminations_calls [of cbs args] by (simp add: calls_def)

lemma terminations_rounds:
  "terminations (concat (replicate k (SetItem key v # calls cbs args))) = []"
  by (induction k)
     (simp_all add: terminations_append terminations_calls terminations_Cons terminations_Nil)

lemma init_terminations:
  "terminations (effects (snd (init options s))) = terminations (effects s)"
  by (simp add: init_def Let_def log_def forEach_log terminations_append terminations_map_Call
      terminations_Cons terminations_Nil split: option.splits outcome.splits)

lemma logout_terminations:
  "terminations (effects (snd (logout s))) = terminations (effects s)"
  by (simp add: logout_def Let_def log_def forEach_log localStorage_removeItem_def
      terminations_append terminations_map_Call terminations_Cons terminations_Nil
      split: outcome.splits)

lemma show_popup_terminations:
  "terminations (effects (show_popup serviceInfo b s)) = terminations (effects s)"
  by (cases "window_open_result b")
     (simp_all add: show_popup_def Let_def log_def terminations_append terminations_Cons
        terminations_Nil)

lemma terminations_Uncaught: "terminations (replicate k (Uncaught e)) = []"
  by (induction k) (simp_all add: terminations_Nil terminations_Cons)

lemma show_popup_handle:
  "authPopup (show_popup serviceInfo b s) = window_open_result b"
  "closed_windows (show_popup serviceInfo b s) = closed_windows s"
  by (cases "window_open_result b"; simp add: show_popup_def Let_def log_def)+

lemma deliver_message_cases:
  "deliver_message event s = s \<or>
   (\<exists>user service k. message_listeners s = Suc k \<and>
      deliver_message event s =
        s\<lparr>localStorage := (localStorage s)(STORAGE_KEY \<mapsto> stored_text user),
          authPopup := None,
          closed_windows := (case authPopup s of Some w \<Rightarrow> insert w (closed_windows s) | None \<Rightarrow> closed_windows s),
          effects := effects s @ SetItem STORAGE_KEY (stored_text user) # calls (callbacks_login s) [user, service]
                    @ (case authPopup s of Some w \<Rightarrow> [Close w] | None \<Rightarrow> [])
                    @ concat (replicate k (SetItem STORAGE_KEY (stored_text user) # calls (callbacks_login s) [user, service]))\<rparr>) \<or>
   (\<exists>e. deliver_message event s = log (replicate (message_listeners s) (Uncaught e)) s)"
proof (cases "js_get (data event) ''type'' = Return (JStr ''GUAHH_AUTH_SUCCESS'')")
  case False
  have "message_listener event s = (Return (), s)" for s
    using False by (simp add: message_listener_def)
  then have "dispatch event s = s" for s
    by (simp add: dispatch_def)
  then show ?thesis
    by (simp add: deliver_message_def funpow_fixed)
next
  case True
  obtain user service where f: "js_get (data event) ''user'' = Return user"
      "js_get (data event) ''service'' = Return service"
    using success_fields [OF True] by blast
  show ?thesis
  proof (cases "JSON_stringify user")
    case (Throw e)
    from listeners_throw [OF True f(1) Throw, of "message_listeners s" s] show ?thesis
      by (auto simp: deliver_message_def)
  next
    case (Return t)
    show ?thesis
    proof (cases "message_listeners s")
      case 0
      then show ?thesis by (simp add: deliver_message_def)
    next
      case (Suc k)
      then show ?thesis
        using listeners_success [OF True f Return, of k s] by (auto simp: deliver_message_def)
    qed
  qed
qed

lemma deliver_message_tracking:
  "closed_windows s \<subseteq> closed_windows (deliver_message event s)
   \<and> terminations (effects (deliver_message event s)) =
       terminations (effects s) @ map snd (ends_tracking (Message event) s)
   \<and> (ends_tracking (Message event) s = []
        \<or> (\<exists>w e. ends_tracking (Message event) s = [(w, e)] \<and> authPopup s = Some w
              \<and> authPopup (deliver_message event s) = None
              \<and> w \<in> closed_windows (deliver_message event s)))
   \<and> (ends_tracking (Message event) s = [] \<longrightarrow> authPopup (deliver_message event s) = authPopup s)"
proof -
  from deliver_message_cases [of event s] consider
    (same) "deliver_message event s = s"
    | (success) user service k where "deliver_message event s =
        s\<lparr>localStorage := (localStorage s)(STORAGE_KEY \<mapsto> stored_text user),
          authPopup := None,
          closed_windows := (case authPopup s of Some w \<Rightarrow> insert w (closed_windows s) | None \<Rightarrow> closed_windows s),
          effects := effects s @ SetItem STORAGE_KEY (stored_text user) # calls (callbacks_login s) [user, service]
                    @ (case authPopup s of Some w \<Rightarrow> [Close w] | None \<Rightarrow> [])
                    @ concat (replicate k (SetItem STORAGE_KEY (stored_text user) # calls (callbacks_login s) [user, service]))\<rparr>"
    | (throws) e where "deliver_message event s = log (replicate (message_listeners s) (Uncaught e)) s"
    by blast
  then show ?thesis
  proof cases
    case same
    then show ?thesis
      by (simp split: option.splits)
  next
    case success
    have t: "terminations (effects (deliver_message event s)) =
        terminations (effects s) @ (case authPopup s of Some w \<Rightarrow> [Close w] | None \<Rightarrow> [])"
      unfolding success
      by (simp add: terminations_append terminations_rounds terminations_calls terminations_Cons
          terminations_Nil split: option.splits)
    show ?thesis
      unfolding t by (cases "authPopup s") (auto simp: success)
  next
    case throws
    have t: "terminations (effects (deliver_message event s)) = terminations (effects s)"
      unfolding throws by (simp add: log_def terminations_append terminations_Uncaught)
    show ?thesis
      unfolding t by (cases "authPopup s") (simp_all add: throws log_def)
  qed
qed

lemma step_tracking:
  "closed_windows s \<subseteq> closed_windows (step a s)
   \<and> terminations (effects (step a s)) = terminations (effects s) @ map snd (ends_tracking a s)
   \<and> (ends_tracking a s = []
        \<or> (\<exists>w e. ends_tracking a s = [(w, e)] \<and> authPopup s = Some w
              \<and> authPopup (step a s) = None \<and> w \<in> closed_windows (step a s)))
   \<and> (\<not> is_show a \<longrightarrow> ends_tracking a s = [] \<longrightarrow> authPopup (step a s) = authPopup s)"
proof (cases a)
  case (Init options)
  then show ?thesis by (simp add: init_frame init_terminations)
next
  case (Show serviceInfo b)
  then show ?thesis by (simp add: show_popup_handle show_popup_terminations)
next
  case Logout
  then show ?thesis by (simp add: logout_frame logout_terminations)
next
  case (OnLogin cb)
  then show ?thesis by (simp add: onLogin_frame)
next
  case (OnLogout cb)
  then show ?thesis by (simp add: onLogout_frame)
next
  case (ShowLogin options b)
  then show ?thesis
    by (simp add: showLogin_def Let_def show_popup_handle show_popup_terminations onLogin_frame
        split: option.splits)
next
  case (ApiLogout cb)
  then show ?thesis
    by (simp add: GuahhAuthAPI_logout_def Let_def logout_frame logout_terminations onLogout_frame)
next
  case (Message event)
  show ?thesis
    unfolding Message step.simps is_show.simps using deliver_message_tracking [of s event]
    by blast
next
  case (Tick t)
  then show ?thesis
    by (auto simp: interval_tick_def pollTimer_callback_def clearInterval_def log_def
        terminations_append terminations_Cons terminations_Nil split: option.splits)
next
  case (UserCloses w)
  then show ?thesis by (auto simp: user_closes_def)
qed

lemma blocked_show:
  assumes "is_show a" and "\<not> opens_popup a"
  shows "authPopup (step a s) = None"
  using assms by (cases a) (simp_all add: show_popup_handle showLogin_def Let_def)

lemma run_no_popup:
  assumes "list_all (\<lambda>a. \<not> opens_popup a) acts" and "authPopup s = None"
  shows "authPopup (run acts s) = None"
  using assms
proof (induction acts arbitrary: s)
  case Nil
  then show ?case by (simp add: run_Nil)
next
  case (Cons a acts)
  then have a: "\<not> opens_popup a" and acts: "list_all (\<lambda>a. \<not> opens_popup a) acts"
    by simp_all
  have "authPopup (step a s) = None"
  proof (cases "is_show a")
    case True
    from blocked_show [OF True a] show ?thesis .
  next
    case False
    with step_tracking [of s a] Cons.prems(2) show ?thesis
      by auto
  qed
  from Cons.IH [OF acts this] show ?case
    by (simp add: run_Cons)
qed

lemma tick_no_popup:
  "authPopup s = None \<Longrightarrow> interval_tick t s = s"
  "authPopup s = None \<Longrightarrow> pollTimer_callback t s = s"
  by (simp_all add: interval_tick_def pollTimer_callback_def)

lemma opened_live:
  assumes "is_show a" and "open_result_live a s" and "authPopup (step a s) = Some w"
  shows "w \<notin> closed_windows s"
  using assms
  by (cases a) (simp_all add: show_popup_handle showLogin_def Let_def)

lemma ended_terminations:
  "terminations (effects (run acts s)) = terminations (effects s) @ map snd (ended acts s)"
proof (induction acts arbitrary: s)
  case Nil
  show ?case by (simp add: run_Nil)
next
  case (Cons a acts)
  from step_tracking [of s a]
  have "terminations (effects (step a s)) = terminations (effects s) @ map snd (ends_tracking a s)"
    by blast
  with Cons.IH [of "step a s"] show ?case
    by (simp add: run_Cons)
qed

lemma ended_distinct:
  assumes "live_opens acts s" and "\<forall>w. authPopup s = Some w \<longrightarrow> w \<notin> X"
    and "X \<subseteq> closed_windows s"
  shows "distinct (map fst (ended acts s)) \<and> fst ` set (ended acts s) \<inter> X = {}"
  using assms
proof (induction acts arbitrary: s X)
  case Nil
  show ?case by simp
next
  case (Cons a acts)
  let ?E = "fst ` set (ends_tracking a s)"
  let ?s' = "step a s"
  from Cons.prems(1) have live: "open_result_live a s" "live_opens acts ?s'"
    by simp_all
  note st = step_tracking [of s a]
  from st have mono: "closed_windows s \<subseteq> closed_windows ?s'"
    by blast
  from st have E: "ends_tracking a s = []
      \<or> (\<exists>w e. ends_tracking a s = [(w, e)] \<and> authPopup s = Some w
            \<and> authPopup ?s' = None \<and> w \<in> closed_windows ?s')"
    by blast
  have h: "\<forall>w. authPopup ?s' = Some w \<longrightarrow> w \<notin> X \<union> ?E"
  proof (intro allI impI)
    fix w
    assume w: "authPopup ?s' = Some w"
    with E have e: "ends_tracking a s = []"
      by auto
    show "w \<notin> X \<union> ?E"
    proof (cases "is_show a")
      case True
      from opened_live [OF True live(1) w] Cons.prems(3) e show ?thesis
        by auto
    next
      case False
      with st e have "authPopup ?s' = authPopup s"
        by blast
      with w Cons.prems(2) e show ?thesis
        by auto
    qed
  qed
  have c: "X \<union> ?E \<subseteq> closed_windows ?s'"
    using E mono Cons.prems(3) by auto
  from Cons.IH [OF live(2) h c]
  have ih: "distinct (map fst (ended acts ?s'))"
    "fst ` set (ended acts ?s') \<inter> (X \<union> ?E) = {}"
    by simp_all
  have x: "?E \<inter> X = {}"
    using E Cons.prems(2) by auto
  from E show ?case
  proof
    assume "ends_tracking a s = []"
    with ih show ?thesis by auto
  next
    assume "\<exists>w e. ends_tracking a s = [(w, e)] \<and> authPopup s = Some w
            \<and> authPopup ?s' = None \<and> w \<in> closed_windows ?s'"
    then obtain w e where "ends_tracking a s = [(w, e)]"
      by blast
    with ih x show ?thesis by auto
  qed
qed

text \<open>
  Claim C6, as amended. Let the listener have processed a handshake message (it has
  returned: a message on which line 36 throws is not processed). Then the popup handle
  is \<open>null\<close>, and the popup that was tracked is closed (the listener called \<open>close\<close> on
  it). From then on, until a popup is opened again (a \<open>show\<close> for which \<open>window.open\<close>
  returns a window), the handle stays \<open>null\<close> and a tick of any interval changes nothing.

  For one popup, only one of the two termination paths fires, in every run of the page:
  every termination in the log is the end of the tracking of one window, by the
  handshake path or by the poll path, and no window's tracking ends twice. This rests on
  \<open>window.open\<close> returning no window that is already closed.
\<close>

theorem popup_terminated_once:
  assumes "js_get (data event) ''type'' = Return (JStr ''GUAHH_AUTH_SUCCESS'')"
    and "fst (message_listener event s) = Return ()"
  shows "authPopup (snd (message_listener event s)) = None
   \<and> (\<forall>w. authPopup s = Some w \<longrightarrow>
         w \<in> closed_windows (snd (message_listener event s))
         \<and> terminations (effects (snd (message_listener event s))) = terminations (effects s) @ [Close w])
   \<and> (\<forall>acts t. list_all (\<lambda>a. \<not> opens_popup a) acts \<longrightarrow>
         authPopup (run acts (snd (message_listener event s))) = None
         \<and> pollTimer_callback t (run acts (snd (message_listener event s)))
             = run acts (snd (message_listener event s))
         \<and> interval_tick t (run acts (snd (message_listener event s)))
             = run acts (snd (message_listener event s)))
   \<and> (\<forall>acts s0.
         terminations (effects (run acts s0)) = terminations (effects s0) @ map snd (ended acts s0))
   \<and> (\<forall>acts s0. live_opens acts s0 \<longrightarrow> distinct (map fst (ended acts s0)))"
proof -
  obtain user service where f: "js_get (data event) ''user'' = Return user"
      "js_get (data event) ''service'' = Return service"
    using success_fields [OF assms(1)] by blast
  obtain t where t: "JSON_stringify user = Return t"
    using assms(2) message_listener_throws [OF assms(1) f(1), of _ s]
    by (cases "JSON_stringify user") auto
  note m = message_listener_success [OF assms(1) f t, of s]
  have 1: "authPopup (snd (message_listener event s)) = None"
    by (simp add: m)
  have 2: "\<forall>w. authPopup s = Some w \<longrightarrow>
         w \<in> closed_windows (snd (message_listener event s))
         \<and> terminations (effects (snd (message_listener event s))) = terminations (effects s) @ [Close w]"
    by (simp add: m terminations_append terminations_Cons terminations_Nil terminations_calls)
  have 3: "authPopup (run acts (snd (message_listener event s))) = None
         \<and> pollTimer_callback t (run acts (snd (message_listener event s)))
             = run acts (snd (message_listener event s))
         \<and> interval_tick t (run acts (snd (message_listener event s)))
             = run acts (snd (message_listener event s))"
    if "list_all (\<lambda>a. \<not> opens_popup a) acts" for acts t
    using run_no_popup [OF that 1] by (simp add: tick_no_popup)
  have 4: "terminations (effects (run acts s0)) = terminations (effects s0) @ map snd (ended acts s0)"
    for acts s0
    by (rule ended_terminations)
  have 5: "distinct (map fst (ended acts s0))" if "live_opens acts s0" for acts s0
    using ended_distinct [OF that, of "{}"] by simp
  from 1 2 3 4 5 show ?thesis by blast
qed

theorem popup_terminated_once_witness:
  "js_get (data example_event) ''type'' = Return (JStr ''GUAHH_AUTH_SUCCESS'')
   \<and> fst (message_listener example_event example_page) = Return ()
   \<and> authPopup (snd (message_listener example_event example_page)) = None
   \<and> authPopup example_page = Some 7
   \<and> 7 \<in> closed_windows (snd (message_listener example_event example_page))
   \<and> terminations (effects (snd (message_listener example_event example_page))) = [Close 7]
   \<and> list_all (\<lambda>a. \<not> opens_popup a)
        [Tick 5, Show \<lparr>name = None, url = None\<rparr> blocking_browser, UserCloses 7,
         Message example_event, Tick 5]
   \<and> interval_tick 5
        (run [Tick 5, Show \<lparr>name = None, url = None\<rparr> blocking_browser, UserCloses 7,
              Message example_event, Tick 5]
           (snd (message_listener example_event example_page)))
      = run [Tick 5, Show \<lparr>name = None, url = None\<rparr> blocking_browser, UserCloses 7,
             Message example_event, Tick 5]
          (snd (message_listener example_event example_page))
   \<and> live_opens
        [Init \<lparr>authPageUrl = None\<rparr>, Show \<lparr>name = None, url = None\<rparr> example_browser,
         Message example_event, Show \<lparr>name = None, url = None\<rparr> second_browser, UserCloses 8,
         Tick 5, Tick 6, Message example_event]
        (fresh_page Map.empty)
   \<and> ended
        [Init \<lparr>authPageUrl = None\<rparr>, Show \<lparr>name = None, url = None\<rparr> example_browser,
         Message example_event, Show \<lparr>name = None, url = None\<rparr> second_browser, UserCloses 8,
         Tick 5, Tick 6, Message example_event]
        (fresh_page Map.empty) = [(7, Close 7), (8, ClearInterval 5)]
   \<and> distinct (map fst (ended
        [Init \<lparr>authPageUrl = None\<rparr>, Show \<lparr>name = None, url = None\<rparr> example_browser,
         Message example_event, Show \<lparr>name = None, url = None\<rparr> second_browser, UserCloses 8,
         Tick 5, Tick 6, Message example_event]
        (fresh_page Map.empty)))
   \<and> terminations (effects (run
        [Init \<lparr>authPageUrl = None\<rparr>, Show \<lparr>name = None, url = None\<rparr> example_browser,
         Message example_event, Show \<lparr>name = None, url = None\<rparr> second_browser, UserCloses 8,
         Tick 5, Tick 6, Message example_event]
        (fresh_page Map.empty))) = [Close 7, ClearInterval 5]"
proof -
  let ?acts = "[Init \<lparr>authPageUrl = None\<rparr>, Show \<lparr>name = None, url = None\<rparr> example_browser,
         Message example_event, Show \<lparr>name = None, url = None\<rparr> second_browser, UserCloses 8,
         Tick 5, Tick 6, Message example_event]"
  have h: "js_get (data example_event) ''type'' = Return (JStr ''GUAHH_AUTH_SUCCESS'')"
    by (simp add: example_event_def)
  have r: "fst (message_listener example_event example_page) = Return ()"
    by (simp add: message_listener_def setUser_def example_user_stringify example_event_def Let_def)
  have p: "authPopup example_page = Some 7" and e: "effects example_page = []"
    by (simp_all add: example_page_def)
  have l: "list_all (\<lambda>a. \<not> opens_popup a)
        [Tick 5, Show \<lparr>name = None, url = None\<rparr> blocking_browser, UserCloses 7,
         Message example_event, Tick 5]"
    by (simp add: blocking_browser_def)
  have ev: "ended ?acts (fresh_page Map.empty) = [(7, Close 7), (8, ClearInterval 5)]"
    and lv: "live_opens ?acts (fresh_page Map.empty)"
    by (simp_all add: fresh_page_def init_def show_popup_def Let_def log_def deliver_message_def
        dispatch_def message_listener_def setUser_def example_user_stringify
        localStorage_setItem_def forEach_log window_close_def user_closes_def interval_tick_def
        pollTimer_callback_def clearInterval_def example_event_def example_browser_def
        second_browser_def)
  note t = popup_terminated_once [OF h r]
  note t1 = t [THEN conjunct1]
  note t2 = t [THEN conjunct2, THEN conjunct1, rule_format, OF p]
  note t3 = t [THEN conjunct2, THEN conjunct2, THEN conjunct1, rule_format, OF l, of 5]
  note t4 = t [THEN conjunct2, THEN conjunct2, THEN conjunct2, THEN conjunct1, rule_format,
      of ?acts "fresh_page Map.empty"]
  note t5 = t [THEN conjunct2, THEN conjunct2, THEN conjunct2, THEN conjunct2, rule_format, OF lv]
  have f: "effects (fresh_page Map.empty) = []"
    by (simp add: fresh_page_def)
  have c5: "7 \<in> closed_windows (snd (message_listener example_event example_page))"
    using t2 by (rule conjunct1)
  have c6: "terminations (effects (snd (message_listener example_event example_page))) = [Close 7]"
    using t2 [THEN conjunct2] unfolding e by (simp only: terminations_Nil append_Nil)
  note c8 = t3 [THEN conjunct2, THEN conjunct2]
  have c12: "terminations (effects (run ?acts (fresh_page Map.empty))) = [Close 7, ClearInterval 5]"
    using t4 unfolding ev f
    by (simp only: terminations_Nil append_Nil list.map snd_conv)
  from h r t1 p c5 c6 l c8 lv ev t5 c12 show ?thesis
    by (intro conjI)
qed

subsection \<open>An interval that outlives its popup\<close>

text \<open>
  The handshake path does not cancel the interval that \<open>show\<close> started. The interval
  keeps running, and the handle it polls is the module's single \<open>authPopup\<close>. So after
  a later \<open>show\<close> has opened another popup, and the user has closed that one, a tick of
  the first interval finds a closed popup and clears the handle.
\<close>

theorem stale_interval_counterexample:
  "js_get (data example_event) ''type'' = Return (JStr ''GUAHH_AUTH_SUCCESS'')
   \<and> intervals (run [Init \<lparr>authPageUrl = None\<rparr>, Show \<lparr>name = None, url = None\<rparr> example_browser]
        (fresh_page Map.empty)) = [5]
   \<and> authPopup (run [Init \<lparr>authPageUrl = None\<rparr>, Show \<lparr>name = None, url = None\<rparr> example_browser,
        Message example_event] (fresh_page Map.empty)) = None
   \<and> authPopup (run [Init \<lparr>authPageUrl = None\<rparr>, Show \<lparr>name = None, url = None\<rparr> example_browser,
        Message example_event, Show \<lparr>name = None, url = None\<rparr> second_browser, UserCloses 8]
        (fresh_page Map.empty)) = Some 8
   \<and> effects (interval_tick 5
        (run [Init \<lparr>authPageUrl = None\<rparr>, Show \<lparr>name = None, url = None\<rparr> example_browser,
           Message example_event, Show \<lparr>name = None, url = None\<rparr> second_browser, UserCloses 8]
           (fresh_page Map.empty)))
      = effects
        (run [Init \<lparr>authPageUrl = None\<rparr>, Show \<lparr>name = None, url = None\<rparr> example_browser,
           Message example_event, Show \<lparr>name = None, url = None\<rparr> second_browser, UserCloses 8]
           (fresh_page Map.empty)) @ [ClearInterval 5]
   \<and> authPopup (interval_tick 5
        (run [Init \<lparr>authPageUrl = None\<rparr>, Show \<lparr>name = None, url = None\<rparr> example_browser,
           Message example_event, Show \<lparr>name = None, url = None\<rparr> second_browser, UserCloses 8]
           (fresh_page Map.empty))) = None
   \<and> interval_tick 5
        (run [Init \<lparr>authPageUrl = None\<rparr>, Show \<lparr>name = None, url = None\<rparr> example_browser,
           Message example_event, Show \<lparr>name = None, url = None\<rparr> second_browser, UserCloses 8]
           (fresh_page Map.empty))
      \<noteq> run [Init \<lparr>authPageUrl = None\<rparr>, Show \<lparr>name = None, url = None\<rparr> example_browser,
           Message example_event, Show \<lparr>name = None, url = None\<rparr> second_browser, UserCloses 8]
           (fresh_page Map.empty)"
  by (simp add: run_def fresh_page_def init_def show_popup_def Let_def log_def deliver_message_def
      dispatch_def message_listener_def setUser_def example_user_stringify
      localStorage_setItem_def forEach_log window_close_def
      user_closes_def interval_tick_def pollTimer_callback_def clearInterval_def
      example_event_def example_browser_def second_browser_def)

subsection \<open>Callbacks registered by the convenience layer\<close>

lemma show_popup_frame:
  "callbacks_login (show_popup serviceInfo b s) = callbacks_login s"
  "callbacks_logout (show_popup serviceInfo b s) = callbacks_logout s"
  "localStorage (show_popup serviceInfo b s) = localStorage s"
  "message_listeners (show_popup serviceInfo b s) = message_listeners s"
  by (cases "window_open_result b"; simp add: show_popup_def Let_def log_def)+

lemma showLogin_callbacks:
  "callbacks_login (showLogin options b s) =
     callbacks_login s @ (case onSuccess options of Some f \<Rightarrow> [OnSuccessWrapper f] | None \<Rightarrow> [])"
  "callbacks_logout (showLogin options b s) = callbacks_logout s"
  by (simp_all add: showLogin_def Let_def show_popup_frame onLogin_def split: option.splits)

lemma message_listener_callbacks:
  "callbacks_login (snd (message_listener event s)) = callbacks_login s"
  "callbacks_logout (snd (message_listener event s)) = callbacks_logout s"
  by (simp_all add: message_listener_def Let_def setUser_def localStorage_setItem_def log_def
      forEach_log window_close_def split: option.splits outcome.splits)

lemma dispatch_callbacks:
  "callbacks_login (dispatch event s) = callbacks_login s"
  "callbacks_logout (dispatch event s) = callbacks_logout s"
  using message_listener_callbacks [of event s]
  by (auto simp: dispatch_def log_def split: prod.splits outcome.splits)

lemma deliver_message_callbacks:
  "callbacks_login (deliver_message event s) = callbacks_login s"
  "callbacks_logout (deliver_message event s) = callbacks_logout s"
proof -
  have "callbacks_login ((dispatch event ^^ n) s) = callbacks_login s
      \<and> callbacks_logout ((dispatch event ^^ n) s) = callbacks_logout s" for n
    by (induction n) (simp_all add: dispatch_callbacks)
  then show "callbacks_login (deliver_message event s) = callbacks_login s"
    and "callbacks_logout (deliver_message event s) = callbacks_logout s"
    by (simp_all add: deliver_message_def)
qed

lemma step_callbacks:
  "prefix (callbacks_login s) (callbacks_login (step a s))
   \<and> prefix (callbacks_logout s) (callbacks_logout (step a s))"
proof (cases a)
  case (Init options)
  then show ?thesis by (simp add: init_frame)
next
  case (Show serviceInfo b)
  then show ?thesis by (simp add: show_popup_frame)
next
  case Logout
  then show ?thesis by (simp add: logout_frame)
next
  case (OnLogin cb)
  then show ?thesis by (simp add: onLogin_def split: jsarg.splits)
next
  case (OnLogout cb)
  then show ?thesis by (simp add: onLogout_def split: jsarg.splits)
next
  case (ShowLogin options b)
  then show ?thesis by (simp add: showLogin_callbacks)
next
  case (ApiLogout cb)
  then show ?thesis
    by (simp add: GuahhAuthAPI_logout_def Let_def logout_frame onLogout_def split: jsarg.splits)
next
  case (Message event)
  then show ?thesis by (simp add: deliver_message_callbacks)
next
  case (Tick t)
  then show ?thesis
    by (simp add: interval_tick_def pollTimer_callback_def clearInterval_def log_def
        split: option.splits)
next
  case (UserCloses w)
  then show ?thesis by (simp add: user_closes_def)
qed

lemma run_callbacks:
  "prefix (callbacks_login s) (callbacks_login (run acts s))
   \<and> prefix (callbacks_logout s) (callbacks_logout (run acts s))"
proof (induction acts arbitrary: s)
  case Nil
  show ?case by (simp add: run_Nil)
next
  case (Cons a acts)
  from step_callbacks [of s a] Cons.IH [of "step a s"] show ?case
    by (auto simp: run_Cons intro: prefix_order.trans)
qed

lemma run_showLogins:
  assumes "list_all (\<lambda>x. onSuccess (fst x) = Some f) xs"
  shows "callbacks_login (run (map (\<lambda>x. ShowLogin (fst x) (snd x)) xs) s) =
     callbacks_login s @ replicate (length xs) (OnSuccessWrapper f)"
  using assms
proof (induction xs arbitrary: s)
  case Nil
  show ?case by (simp add: run_Nil)
next
  case (Cons x xs)
  then have x: "onSuccess (fst x) = Some f" and xs: "list_all (\<lambda>x. onSuccess (fst x) = Some f) xs"
    by simp_all
  show ?case
    by (simp add: run_Cons Cons.IH [OF xs] showLogin_callbacks x replicate_append_same)
qed

lemma logout_user:
  assumes "getUser s = Return user"
  shows "logout s =
     (Return (),
      s\<lparr>localStorage := (localStorage s)(STORAGE_KEY := None),
        effects := effects s @ RemoveItem STORAGE_KEY # calls (callbacks_logout s) [user]\<rparr>)"
  using assms by (simp add: logout_def Let_def localStorage_removeItem_def log_def forEach_log calls_def)

lemma getUser_localStorage:
  "localStorage s = localStorage t \<Longrightarrow> getUser s = getUser t"
  by (simp add: getUser_def)

text \<open>
  Claim C10. Each \<open>showLogin\<close> call with an \<open>onSuccess\<close> option \<open>f\<close> appends one wrapper
  of \<open>f\<close> to the login callbacks, so \<open>n\<close> such calls append \<open>n\<close>. No action removes or
  reorders a registered callback. Hence whatever happens next (\<open>acts\<close>), a later
  handshake handled by the listener (a login event: \<open>JSON.stringify\<close> serializes its
  \<open>user\<close>) calls the callbacks the page had before, then \<open>f\<close>
  once for each of the \<open>n\<close> wrappers, then the callbacks registered since. In the same
  way a function passed to \<open>GuahhAuthAPI.logout\<close> is appended to the logout callbacks, is
  called by that logout after the callbacks registered earlier, and is called again by
  every later logout.
\<close>

theorem convenience_callbacks_stay:
  assumes "list_all (\<lambda>x. onSuccess (fst x) = Some f) xs"
    and "js_get (data event) ''type'' = Return (JStr ''GUAHH_AUTH_SUCCESS'')"
    and "js_get (data event) ''user'' = Return user"
    and "js_get (data event) ''service'' = Return service"
    and "JSON_stringify user = Return t"
  shows "callbacks_login (run (map (\<lambda>x. ShowLogin (fst x) (snd x)) xs) s) =
           callbacks_login s @ replicate (length xs) (OnSuccessWrapper f)
   \<and> (\<forall>acts. \<exists>more.
         callbacks_login (run acts (run (map (\<lambda>x. ShowLogin (fst x) (snd x)) xs) s)) =
           callbacks_login s @ replicate (length xs) (OnSuccessWrapper f) @ more
         \<and> effects (snd (message_listener event (run acts (run (map (\<lambda>x. ShowLogin (fst x) (snd x)) xs) s)))) =
             effects (run acts (run (map (\<lambda>x. ShowLogin (fst x) (snd x)) xs) s))
             @ SetItem STORAGE_KEY (stored_text user)
               # map (\<lambda>cb. Call (callee cb) [user, service]) (callbacks_login s)
             @ replicate (length xs) (Call f [user, service])
             @ map (\<lambda>cb. Call (callee cb) [user, service]) more
             @ (case authPopup (run acts (run (map (\<lambda>x. ShowLogin (fst x) (snd x)) xs) s)) of
                  Some w \<Rightarrow> [Close w] | None \<Rightarrow> []))
   \<and> callbacks_logout (snd (GuahhAuthAPI_logout (Function cb) s)) = callbacks_logout s @ [cb]
   \<and> (\<forall>u. getUser s = Return u \<longrightarrow>
         effects (snd (GuahhAuthAPI_logout (Function cb) s)) =
           effects s @ RemoveItem STORAGE_KEY
             # map (\<lambda>c. Call (callee c) [u]) (callbacks_logout s @ [cb]))
   \<and> (\<forall>acts u. getUser (run acts (snd (GuahhAuthAPI_logout (Function cb) s))) = Return u \<longrightarrow>
         (\<exists>more.
           effects (snd (logout (run acts (snd (GuahhAuthAPI_logout (Function cb) s))))) =
             effects (run acts (snd (GuahhAuthAPI_logout (Function cb) s)))
             @ RemoveItem STORAGE_KEY
               # map (\<lambda>c. Call (callee c) [u]) (callbacks_logout s @ [cb] @ more)))"
proof -
  let ?s1 = "run (map (\<lambda>x. ShowLogin (fst x) (snd x)) xs) s"
  let ?s2 = "snd (GuahhAuthAPI_logout (Function cb) s)"
  have 1: "callbacks_login ?s1 = callbacks_login s @ replicate (length xs) (OnSuccessWrapper f)"
    by (rule run_showLogins [OF assms(1)])
  have 2: "\<exists>more.
         callbacks_login (run acts ?s1) =
           callbacks_login s @ replicate (length xs) (OnSuccessWrapper f) @ more
         \<and> effects (snd (message_listener event (run acts ?s1))) =
             effects (run acts ?s1)
             @ SetItem STORAGE_KEY (stored_text user)
               # map (\<lambda>cb. Call (callee cb) [user, service]) (callbacks_login s)
             @ replicate (length xs) (Call f [user, service])
             @ map (\<lambda>cb. Call (callee cb) [user, service]) more
             @ (case authPopup (run acts ?s1) of Some w \<Rightarrow> [Close w] | None \<Rightarrow> [])" for acts
  proof -
    from run_callbacks [of ?s1 acts] obtain more where
      m: "callbacks_login (run acts ?s1) = callbacks_login ?s1 @ more"
      by (auto simp: prefix_def)
    have "callbacks_login (run acts ?s1) =
        callbacks_login s @ replicate (length xs) (OnSuccessWrapper f) @ more"
      by (simp add: m 1)
    moreover from this have "effects (snd (message_listener event (run acts ?s1))) =
             effects (run acts ?s1)
             @ SetItem STORAGE_KEY (stored_text user)
               # map (\<lambda>cb. Call (callee cb) [user, service]) (callbacks_login s)
             @ replicate (length xs) (Call f [user, service])
             @ map (\<lambda>cb. Call (callee cb) [user, service]) more
             @ (case authPopup (run acts ?s1) of Some w \<Rightarrow> [Close w] | None \<Rightarrow> [])"
      by (simp add: message_listener_success [OF assms(2-5)] calls_def map_replicate)
    ultimately show ?thesis by blast
  qed
  have 3: "callbacks_logout ?s2 = callbacks_logout s @ [cb]"
    by (simp add: GuahhAuthAPI_logout_def Let_def logout_frame onLogout_def)
  have 4: "effects ?s2 =
           effects s @ RemoveItem STORAGE_KEY # map (\<lambda>c. Call (callee c) [u]) (callbacks_logout s @ [cb])"
    if "getUser s = Return u" for u
  proof -
    have "getUser (onLogout (Function cb) s) = Return u"
      using that getUser_localStorage [of "onLogout (Function cb) s" s]
      by (simp add: onLogout_frame)
    from logout_user [OF this] show ?thesis
      by (simp add: GuahhAuthAPI_logout_def Let_def calls_def onLogout_def)
  qed
  have 5: "\<exists>more.
           effects (snd (logout (run acts ?s2))) =
             effects (run acts ?s2) @ RemoveItem STORAGE_KEY
               # map (\<lambda>c. Call (callee c) [u]) (callbacks_logout s @ [cb] @ more)"
    if "getUser (run acts ?s2) = Return u" for acts u
  proof -
    from run_callbacks [of ?s2 acts] obtain more where
      "callbacks_logout (run acts ?s2) = callbacks_logout ?s2 @ more"
      by (auto simp: prefix_def)
    then have "callbacks_logout (run acts ?s2) = callbacks_logout s @ [cb] @ more"
      by (simp add: 3)
    then have "effects (snd (logout (run acts ?s2))) =
             effects (run acts ?s2) @ RemoveItem STORAGE_KEY
               # map (\<lambda>c. Call (callee c) [u]) (callbacks_logout s @ [cb] @ more)"
      by (simp add: logout_user [OF that] calls_def)
    then show ?thesis by blast
  qed
  from 1 2 3 4 5 show ?thesis by blast
qed

theorem convenience_callbacks_stay_witness:
  "list_all (\<lambda>x. onSuccess (fst x) = Some 9)
     [(\<lparr>serviceName = Some ''Acme'', serviceUrl = None, onSuccess = Some 9\<rparr>, example_browser),
      (\<lparr>serviceName = None, serviceUrl = None, onSuccess = Some 9\<rparr>, example_browser)]
   \<and> js_get (data example_event) ''type'' = Return (JStr ''GUAHH_AUTH_SUCCESS'')
   \<and> js_get (data example_event) ''user'' = Return example_user
   \<and> js_get (data example_event) ''service'' = Return (JObj [(''name'', JStr ''Acme'')])
   \<and> JSON_stringify example_user = Return (Some example_user_text)
   \<and> callbacks_login
        (run [ShowLogin \<lparr>serviceName = Some ''Acme'', serviceUrl = None, onSuccess = Some 9\<rparr> example_browser,
              ShowLogin \<lparr>serviceName = None, serviceUrl = None, onSuccess = Some 9\<rparr> example_browser]
           example_page)
       = [Fn 1, OnSuccessWrapper 2, OnSuccessWrapper 9, OnSuccessWrapper 9]
   \<and> drop (length (effects
          (run [OnLogin (Function (Fn 4))]
             (run [ShowLogin \<lparr>serviceName = Some ''Acme'', serviceUrl = None, onSuccess = Some 9\<rparr> example_browser,
                   ShowLogin \<lparr>serviceName = None, serviceUrl = None, onSuccess = Some 9\<rparr> example_browser]
                example_page))))
        (effects (snd (message_listener example_event
          (run [OnLogin (Function (Fn 4))]
             (run [ShowLogin \<lparr>serviceName = Some ''Acme'', serviceUrl = None, onSuccess = Some 9\<rparr> example_browser,
                   ShowLogin \<lparr>serviceName = None, serviceUrl = None, onSuccess = Some 9\<rparr> example_browser]
                example_page)))))
       = [SetItem ''guahh_user'' (stored_text example_user),
          Call 1 [example_user, JObj [(''name'', JStr ''Acme'')]],
          Call 2 [example_user, JObj [(''name'', JStr ''Acme'')]],
          Call 9 [example_user, JObj [(''name'', JStr ''Acme'')]],
          Call 9 [example_user, JObj [(''name'', JStr ''Acme'')]],
          Call 4 [example_user, JObj [(''name'', JStr ''Acme'')]],
          Close 7]
   \<and> callbacks_logout (snd (GuahhAuthAPI_logout (Function (Fn 8)) example_page)) = [Fn 3, Fn 8]
   \<and> getUser example_page = Return JNull
   \<and> effects (snd (GuahhAuthAPI_logout (Function (Fn 8)) example_page)) =
        [RemoveItem ''guahh_user'', Call 3 [JNull], Call 8 [JNull]]
   \<and> effects (snd (logout (run [OnLogout (Function (Fn 4))]
        (snd (GuahhAuthAPI_logout (Function (Fn 8)) example_page))))) =
        [RemoveItem ''guahh_user'', Call 3 [JNull], Call 8 [JNull],
         RemoveItem ''guahh_user'', Call 3 [JNull], Call 8 [JNull], Call 4 [JNull]]"
proof -
  let ?xs = "[(\<lparr>serviceName = Some ''Acme'', serviceUrl = None, onSuccess = Some 9\<rparr>, example_browser),
      (\<lparr>serviceName = None, serviceUrl = None, onSuccess = Some 9\<rparr>, example_browser)]"
  have l: "list_all (\<lambda>x. onSuccess (fst x) = Some 9) ?xs"
    by simp
  have e: "js_get (data example_event) ''type'' = Return (JStr ''GUAHH_AUTH_SUCCESS'')"
      "js_get (data example_event) ''user'' = Return example_user"
      "js_get (data example_event) ''service'' = Return (JObj [(''name'', JStr ''Acme'')])"
      "JSON_stringify example_user = Return (Some example_user_text)"
    by (simp_all add: example_event_def example_user_stringify)
  have g: "getUser example_page = Return JNull"
    by (simp add: getUser_def example_page_def)
  note t = convenience_callbacks_stay [OF l e, of example_page "Fn 8"]
  note t1 = t [THEN conjunct1]
  note t3 = t [THEN conjunct2, THEN conjunct2, THEN conjunct1]
  note t4 = t [THEN conjunct2, THEN conjunct2, THEN conjunct2, THEN conjunct1, rule_format, OF g]
  let ?t = "run [OnLogin (Function (Fn 4))]
             (run [ShowLogin \<lparr>serviceName = Some ''Acme'', serviceUrl = None, onSuccess = Some 9\<rparr> example_browser,
                   ShowLogin \<lparr>serviceName = None, serviceUrl = None, onSuccess = Some 9\<rparr> example_browser]
                example_page)"
  have ct: "callbacks_login ?t = [Fn 1, OnSuccessWrapper 2, OnSuccessWrapper 9, OnSuccessWrapper 9, Fn 4]"
    by (simp add: run_def showLogin_callbacks onLogin_def example_page_def)
  have ap: "authPopup ?t = Some 7"
    by (simp add: run_def showLogin_def show_popup_def Let_def log_def onLogin_def
        example_browser_def)
  from t [THEN conjunct2, THEN conjunct1, rule_format, of "[OnLogin (Function (Fn 4))]"]
  obtain more where
    m: "callbacks_login ?t = callbacks_login example_page @ replicate (length ?xs) (OnSuccessWrapper 9) @ more"
    and ef: "effects (snd (message_listener example_event ?t)) =
      effects ?t @ SetItem STORAGE_KEY (stored_text example_user)
        # map (\<lambda>cb. Call (callee cb) [example_user, JObj [(''name'', JStr ''Acme'')]])
            (callbacks_login example_page)
        @ replicate (length ?xs) (Call 9 [example_user, JObj [(''name'', JStr ''Acme'')]])
        @ map (\<lambda>cb. Call (callee cb) [example_user, JObj [(''name'', JStr ''Acme'')]]) more
        @ (case authPopup ?t of Some w \<Rightarrow> [Close w] | None \<Rightarrow> [])"
    by (simp only: list.map fst_conv snd_conv) blast
  from m ct have more: "more = [Fn 4]"
    by (simp add: example_page_def numeral_2_eq_2)
  have d: "drop (length (effects ?t)) (effects (snd (message_listener example_event ?t))) =
       [SetItem ''guahh_user'' (stored_text example_user),
          Call 1 [example_user, JObj [(''name'', JStr ''Acme'')]],
          Call 2 [example_user, JObj [(''name'', JStr ''Acme'')]],
          Call 9 [example_user, JObj [(''name'', JStr ''Acme'')]],
          Call 9 [example_user, JObj [(''name'', JStr ''Acme'')]],
          Call 4 [example_user, JObj [(''name'', JStr ''Acme'')]],
          Close 7]"
    unfolding ef more ap
    by (simp add: example_page_def STORAGE_KEY_def numeral_2_eq_2)
  let ?u = "run [OnLogout (Function (Fn 4))] (snd (GuahhAuthAPI_logout (Function (Fn 8)) example_page))"
  have "callbacks_logout ?u = (callbacks_logout example_page @ [Fn 8]) @ [Fn 4]"
    unfolding t3 [symmetric] by (simp add: run_def onLogout_def)
  then have cu: "callbacks_logout ?u = [Fn 3, Fn 8, Fn 4]"
    by (simp add: example_page_def)
  have gu: "getUser ?u = Return JNull"
    by (simp add: run_def getUser_def onLogout_frame GuahhAuthAPI_logout_def Let_def logout_def
        localStorage_removeItem_def log_def forEach_log onLogout_def example_page_def)
  from t [THEN conjunct2, THEN conjunct2, THEN conjunct2, THEN conjunct2, rule_format, OF gu]
  obtain more' where ef': "effects (snd (logout ?u)) =
      effects ?u @ RemoveItem STORAGE_KEY
        # map (\<lambda>c. Call (callee c) [JNull]) (callbacks_logout example_page @ [Fn 8] @ more')"
    by blast
  have eu: "effects ?u = [RemoveItem ''guahh_user'', Call 3 [JNull], Call 8 [JNull]]"
    using t4 by (simp add: run_def onLogout_frame example_page_def STORAGE_KEY_def)
  have "effects (snd (logout ?u)) =
      effects ?u @ RemoveItem STORAGE_KEY # map (\<lambda>c. Call (callee c) [JNull]) (callbacks_logout ?u)"
    by (simp add: logout_user [OF gu] calls_def)
  with ef' have d': "effects (snd (logout ?u)) =
        [RemoveItem ''guahh_user'', Call 3 [JNull], Call 8 [JNull],
         RemoveItem ''guahh_user'', Call 3 [JNull], Call 8 [JNull], Call 4 [JNull]]"
    by (simp add: cu eu STORAGE_KEY_def)
  show ?thesis
    using l e g t1 t3 t4 d d' by (simp add: example_page_def STORAGE_KEY_def)
qed

subsection \<open>The session store\<close>

text \<open>
  Claim C7. For a well-formed user record \<open>u\<close>, storing it as line 36 does and reading
  it back with \<open>getUser\<close> gives \<open>u\<close>: line 36 does not throw, the stored text is
  \<open>JSON.stringify(u)\<close>, and \<open>JSON.parse\<close> of that text is \<open>u\<close>.
\<close>

theorem session_round_trip:
  assumes "wf_UserRecord u"
  shows "fst (setUser u s) = Return ()
    \<and> getUser (snd (setUser u s)) = Return u
    \<and> (\<exists>t. JSON_stringify u = Return (Some t)
          \<and> localStorage (snd (setUser u s)) STORAGE_KEY = Some t
          \<and> JSON_parse t = Return u)"
proof -
  have c: "json_clean u"
    using assms by (rule wf_UserRecord_clean)
  obtain t where t: "JSON_stringify u = Return (Some t)" "JSON_parse t = Return u"
    using JSON_round_trip [OF c] by blast
  then have "localStorage (snd (setUser u s)) STORAGE_KEY = Some t"
    by (simp add: setUser_def localStorage_setItem_def log_def)
  with t getUser_setUser [OF c, of s] show ?thesis by blast
qed

theorem session_round_trip_witness:
  "wf_UserRecord
     (JObj [(''userId'', JStr ''42''), (''username'', JStr ''ada''),
            (''displayName'', JStr [CHR ''A'', CHR 0x22, CHR 0x0A, CHR 0x01, CHR 0x5C, CHR 0xE9]),
            (''isVerified'', JBool True),
            (''connectedServices'', JArr [JStr ''fire'', JObj [(''id'', JNull)], JArr []])])
   \<and> getUser (snd (setUser
        (JObj [(''userId'', JStr ''42''), (''username'', JStr ''ada''),
            (''displayName'', JStr [CHR ''A'', CHR 0x22, CHR 0x0A, CHR 0x01, CHR 0x5C, CHR 0xE9]),
            (''isVerified'', JBool True),
            (''connectedServices'', JArr [JStr ''fire'', JObj [(''id'', JNull)], JArr []])])
        example_page))
     = Return
        (JObj [(''userId'', JStr ''42''), (''username'', JStr ''ada''),
            (''displayName'', JStr [CHR ''A'', CHR 0x22, CHR 0x0A, CHR 0x01, CHR 0x5C, CHR 0xE9]),
            (''isVerified'', JBool True),
            (''connectedServices'', JArr [JStr ''fire'', JObj [(''id'', JNull)], JArr []])])"
  using session_round_trip
    [of "JObj [(''userId'', JStr ''42''), (''username'', JStr ''ada''),
            (''displayName'', JStr [CHR ''A'', CHR 0x22, CHR 0x0A, CHR 0x01, CHR 0x5C, CHR 0xE9]),
            (''isVerified'', JBool True),
            (''connectedServices'', JArr [JStr ''fire'', JObj [(''id'', JNull)], JArr []])]"
        example_page]
  by (simp add: field_is_def digit_key_def is_digit_def)

lemma logout_null:
  assumes "getUser s = Return user"
  shows "getUser (snd (logout s)) = Return JNull"
  using assms
  by (simp add: logout_user getUser_def)

text \<open>
  Claim C3. For a well-formed user record \<open>u\<close>, \<open>logout\<close> after \<open>setUser u\<close> removes the
  stored session and then calls every logout callback once per registration, in
  registration order, with \<open>u\<close>; \<open>getUser\<close> then returns \<open>null\<close>. When \<open>getUser\<close> returns
  \<open>null\<close> before the logout (no user logged in), the callbacks are called with \<open>null\<close>.
\<close>

theorem logout_clears_session:
  assumes "wf_UserRecord u"
  shows "fst (setUser u s) = Return ()
    \<and> logout (snd (setUser u s)) =
      (Return (),
       s\<lparr>localStorage := (localStorage s)(STORAGE_KEY := None),
         effects := effects s @ SetItem STORAGE_KEY (stored_text u) # RemoveItem STORAGE_KEY
           # map (\<lambda>cb. Call (callee cb) [u]) (callbacks_logout s)\<rparr>)
    \<and> getUser (snd (logout (snd (setUser u s)))) = Return JNull
    \<and> (getUser s = Return JNull \<longrightarrow>
         logout s =
           (Return (),
            s\<lparr>localStorage := (localStorage s)(STORAGE_KEY := None),
              effects := effects s @ RemoveItem STORAGE_KEY
                # map (\<lambda>cb. Call (callee cb) [JNull]) (callbacks_logout s)\<rparr>))"
proof -
  have c: "json_clean u"
    using assms by (rule wf_UserRecord_clean)
  have r: "fst (setUser u s) = Return ()" and g: "getUser (snd (setUser u s)) = Return u"
    using getUser_setUser [OF c, of s] by simp_all
  obtain t where t: "JSON_stringify u = Return t"
    using JSON_round_trip [OF c] by blast
  have "logout (snd (setUser u s)) =
      (Return (),
       s\<lparr>localStorage := (localStorage s)(STORAGE_KEY := None),
         effects := effects s @ SetItem STORAGE_KEY (stored_text u) # RemoveItem STORAGE_KEY
           # map (\<lambda>cb. Call (callee cb) [u]) (callbacks_logout s)\<rparr>)"
    unfolding logout_user [OF g]
    by (simp add: setUser_Return [OF t] calls_def)
  moreover have "getUser (snd (logout (snd (setUser u s)))) = Return JNull"
    using g by (rule logout_null)
  moreover have "logout s =
           (Return (),
            s\<lparr>localStorage := (localStorage s)(STORAGE_KEY := None),
              effects := effects s @ RemoveItem STORAGE_KEY
                # map (\<lambda>cb. Call (callee cb) [JNull]) (callbacks_logout s)\<rparr>)"
    if "getUser s = Return JNull"
    by (simp add: logout_user [OF that] calls_def)
  ultimately show ?thesis using r by blast
qed

theorem logout_clears_session_witness:
  "wf_UserRecord example_user
   \<and> logout (snd (setUser example_user example_page)) =
      (Return (),
       example_page\<lparr>effects :=
         [SetItem ''guahh_user'' (stored_text example_user), RemoveItem ''guahh_user'',
          Call 3 [example_user]]\<rparr>)
   \<and> getUser (snd (logout (snd (setUser example_user example_page)))) = Return JNull
   \<and> getUser example_page = Return JNull
   \<and> logout example_page =
      (Return (), example_page\<lparr>effects := [RemoveItem ''guahh_user'', Call 3 [JNull]]\<rparr>)"
proof -
  have w: "wf_UserRecord example_user"
    by (simp add: example_user_def field_is_def digit_key_def is_digit_def)
  have g: "getUser example_page = Return JNull"
    by (simp add: getUser_def example_page_def)
  note t = logout_clears_session [OF w, of example_page, THEN conjunct2]
  note t3 = t [THEN conjunct2, THEN conjunct2, rule_format, OF g]
  have e: "(localStorage example_page)(STORAGE_KEY := None) = localStorage example_page"
    by (simp add: example_page_def)
  show ?thesis
    using w g t t3 unfolding e
    by (simp add: example_page_def STORAGE_KEY_def getUser_def)
qed

lemma JSON_parse_undefined: "JSON_parse ''undefined'' = Throw SyntaxError"
  by code_simp

lemma JSON_parse_empty: "JSON_parse [] = Throw SyntaxError"
  by code_simp

text \<open>
  Claim C4, as amended. Let the stored session be a text that \<open>JSON.parse\<close> rejects.
  If the text is not empty, \<open>getUser\<close> throws the SyntaxError, and so does \<open>logout\<close>
  (before it changes anything) and \<open>init\<close> (after it has registered its listener and
  before it calls any callback). If the text is empty, the test \<open>storedUser ? ... : null\<close>
  takes it for no session: \<open>getUser\<close> returns \<open>null\<close> and \<open>init\<close> returns normally
  without a replay.
\<close>

theorem malformed_session:
  assumes "localStorage s STORAGE_KEY = Some storedUser"
    and "JSON_parse storedUser = Throw SyntaxError"
  shows "(storedUser \<noteq> [] \<longrightarrow>
            getUser s = Throw SyntaxError
            \<and> logout s = (Throw SyntaxError, s)
            \<and> init options s =
                (Throw SyntaxError,
                 s\<lparr>message_listeners := Suc (message_listeners s),
                   effects := effects s @ [AddMessageListener]\<rparr>))
    \<and> (storedUser = [] \<longrightarrow>
            getUser s = Return JNull
            \<and> init options s =
                (Return (),
                 s\<lparr>message_listeners := Suc (message_listeners s),
                   effects := effects s @ [AddMessageListener]\<rparr>))"
  using assms
  by (simp add: getUser_def logout_def init_def Let_def log_def)

theorem malformed_session_witness:
  "localStorage (snd (message_listener \<lparr>data = JObj [(''type'', JStr ''GUAHH_AUTH_SUCCESS'')],
        origin = ''https://elsewhere.test'', source = None\<rparr> example_page)) STORAGE_KEY
     = Some ''undefined''
   \<and> JSON_parse ''undefined'' = Throw SyntaxError
   \<and> getUser (snd (message_listener \<lparr>data = JObj [(''type'', JStr ''GUAHH_AUTH_SUCCESS'')],
        origin = ''https://elsewhere.test'', source = None\<rparr> example_page)) = Throw SyntaxError
   \<and> fst (init \<lparr>authPageUrl = None\<rparr>
        (snd (message_listener \<lparr>data = JObj [(''type'', JStr ''GUAHH_AUTH_SUCCESS'')],
           origin = ''https://elsewhere.test'', source = None\<rparr> example_page))) = Throw SyntaxError"
proof -
  let ?s = "snd (message_listener \<lparr>data = JObj [(''type'', JStr ''GUAHH_AUTH_SUCCESS'')],
        origin = ''https://elsewhere.test'', source = None\<rparr> example_page)"
  have l: "localStorage ?s STORAGE_KEY = Some ''undefined''"
    by (simp add: message_listener_def setUser_def localStorage_setItem_def log_def forEach_log
        window_close_def JSON_stringify_def example_page_def)
  have p: "JSON_parse ''undefined'' = Throw SyntaxError"
    by (rule JSON_parse_undefined)
  from malformed_session [OF l p, of "\<lparr>authPageUrl = None\<rparr>"] l p
  show ?thesis by simp
qed

theorem empty_session_counterexample:
  "localStorage (fresh_page [STORAGE_KEY \<mapsto> []]) STORAGE_KEY = Some []
   \<and> JSON_parse [] = Throw SyntaxError
   \<and> getUser (fresh_page [STORAGE_KEY \<mapsto> []]) = Return JNull
   \<and> init \<lparr>authPageUrl = None\<rparr> (fresh_page [STORAGE_KEY \<mapsto> []]) =
       (Return (), (fresh_page [STORAGE_KEY \<mapsto> []])
          \<lparr>message_listeners := 1, effects := [AddMessageListener]\<rparr>)"
  by (simp add: fresh_page_def getUser_def init_def Let_def log_def JSON_parse_empty)

end
